theory Spec2Isabelle
  imports Complex_Main
begin

section \<open>Tiny Tractor Tycoon: the simulation core of farming_sim.py\<close>

text \<open>
  The embedding covers the game state of class \<open>TinyTractorTycoon\<close> and the methods
  \<open>handle_input\<close>, \<open>handle_action\<close>, \<open>handle_fertilizer\<close>, \<open>update_growth\<close>,
  \<open>spawn_rabbit\<close> and \<open>update_rabbits\<close>. Rendering, fonts and the window are left out.

  Conventions of the model:
  \<^item> Python \<open>int\<close> is \<open>int\<close>. Timestamps and durations (Python \<open>float\<close>) are
    rationals (\<open>rat\<close>). The float operations of \<open>handle_fertilizer\<close> are rounded to
    the nearest double (\<open>fl\<close> below), since the new planting time is the outcome of
    a subtraction of floats. The float operations of the other methods are
    taken exactly: rounding is not modelled there.
  \<^item> Every method takes the state and returns \<open>error + game\<close>; \<open>Inl\<close> is the Python
    exception that would leave the method.
  \<^item> The ambient state the methods read (the generator of module \<open>random\<close> and the
    system clock behind \<open>time.time()\<close>) is carried in the state as two oracles with a
    read position each, so that every sequence of draws is covered.
\<close>

subsection \<open>Constants\<close>

definition COLS :: int where "COLS = 8"
definition ROWS :: int where "ROWS = 6"

text \<open>\<open>RABBIT_MOVE_INT = 0.6\<close>: seconds between rabbit hops.\<close>

definition RABBIT_MOVE_INT :: rat where "RABBIT_MOVE_INT = 6 / 10"

subsection \<open>Crop data\<close>

text \<open>
  The frozen dataclass \<open>CropType\<close>. The field \<open>emojis\<close> (four glyphs, used by the
  renderer only) is left out; the entries of \<open>CROPS\<close> differ in \<open>key\<close> already.
\<close>

record CropType =
  key :: string
  name :: string
  grow_time :: rat
  seed_cost :: int
  reward :: int

definition mk_crop :: "string \<Rightarrow> string \<Rightarrow> rat \<Rightarrow> int \<Rightarrow> int \<Rightarrow> CropType" where
  "mk_crop k n g s r = \<lparr>key = k, name = n, grow_time = g, seed_cost = s, reward = r\<rparr>"

definition Corn :: CropType where "Corn = mk_crop ''1'' ''Corn'' 240 5 12"
definition Potato :: CropType where "Potato = mk_crop ''2'' ''Potato'' 210 4 10"
definition Tomato :: CropType where "Tomato = mk_crop ''3'' ''Tomato'' 180 4 10"
definition Bean :: CropType where "Bean = mk_crop ''4'' ''Bean'' 150 3 8"
definition Cabbage :: CropType where "Cabbage = mk_crop ''5'' ''Cabbage'' 270 6 15"
definition Broccoli :: CropType where "Broccoli = mk_crop ''6'' ''Broccoli'' 300 7 18"

definition CROPS :: "CropType list" where
  "CROPS = [Corn, Potato, Tomato, Bean, Cabbage, Broccoli]"

text \<open>\<open>CROP_BY_KEY = {c.key: c for c in CROPS}\<close>\<close>

definition CROP_BY_KEY :: "string \<rightharpoonup> CropType" where
  "CROP_BY_KEY = fold (\<lambda>c m. m(key c \<mapsto> c)) CROPS Map.empty"

subsection \<open>Tiles and rabbits\<close>

record Tile =
  crop :: "CropType option"
  planted_at :: rat
  stage :: int
  fertilized :: bool
  flash_to :: rat
  sparkle_t :: rat

text \<open>\<open>Tile()\<close> with the defaults of the dataclass.\<close>

definition new_Tile :: Tile where
  "new_Tile = \<lparr>crop = None, planted_at = 0, stage = 0, fertilized = False,
               flash_to = 0, sparkle_t = 0\<rparr>"

text \<open>Fields \<open>x\<close> and \<open>y\<close> of \<open>Rabbit\<close> are \<open>rabbit_x\<close> and \<open>rabbit_y\<close> here.\<close>

record Rabbit =
  rabbit_x :: int
  rabbit_y :: int
  next_move :: rat

subsection \<open>Game state\<close>

text \<open>
  The simulation fields of \<open>TinyTractorTycoon\<close>; \<open>self.x\<close>, \<open>self.y\<close> are
  \<open>player_x\<close>, \<open>player_y\<close>. \<open>grid[gx][gy]\<close> is a list of \<open>COLS\<close> columns of \<open>ROWS\<close>
  tiles. \<open>harvest_log\<close> is a dict keyed by crop.

  Ambient state: the \<open>rand_pos\<close>-th draw of the random generator is \<open>rand_src rand_pos\<close>
  (a raw natural number, reduced by the drawing function), and the \<open>clock_pos\<close>-th call
  of \<open>time.time()\<close> inside a method returns \<open>clock_src clock_pos\<close>.
\<close>

record game =
  grid :: "Tile list list"
  player_x :: int
  player_y :: int
  selected :: CropType
  coins :: int
  harvest_log :: "CropType \<rightharpoonup> int"
  rabbits :: "Rabbit list"
  rand_src :: "nat \<Rightarrow> nat"
  rand_pos :: nat
  clock_src :: "nat \<Rightarrow> rat"
  clock_pos :: nat

datatype error = IndexError | KeyError | ZeroDivisionError | NameError | SystemExit

text \<open>The state after \<open>__init__\<close>, for a given generator and clock.\<close>

definition init_game :: "(nat \<Rightarrow> nat) \<Rightarrow> (nat \<Rightarrow> rat) \<Rightarrow> game" where
  "init_game rs cs =
     \<lparr>grid = replicate (nat COLS) (replicate (nat ROWS) new_Tile),
      player_x = 0, player_y = 0,
      selected = CROPS ! 0,
      coins = 25,
      harvest_log = fold (\<lambda>c m. m(c \<mapsto> 0)) CROPS Map.empty,
      rabbits = [],
      rand_src = rs, rand_pos = 0, clock_src = cs, clock_pos = 0\<rparr>"

subsection \<open>Python list indexing\<close>

text \<open>
  \<open>xs[i]\<close> and \<open>xs[i] = v\<close>: a negative index counts from the end, an index out of
  range raises \<open>IndexError\<close>.
\<close>

definition py_index :: "nat \<Rightarrow> int \<Rightarrow> nat option" where
  "py_index len i =
     (if 0 \<le> i \<and> i < int len then Some (nat i)
      else if i < 0 \<and> - int len \<le> i then Some (nat (int len + i))
      else None)"

definition py_get :: "'a list \<Rightarrow> int \<Rightarrow> error + 'a" where
  "py_get xs i =
     (case py_index (length xs) i of
        None \<Rightarrow> Inl IndexError
      | Some k \<Rightarrow> Inr (xs ! k))"

definition py_set :: "'a list \<Rightarrow> int \<Rightarrow> 'a \<Rightarrow> error + 'a list" where
  "py_set xs i v =
     (case py_index (length xs) i of
        None \<Rightarrow> Inl IndexError
      | Some k \<Rightarrow> Inr (xs[k := v]))"

text \<open>\<open>self.grid[i][j]\<close>\<close>

definition get_tile :: "game \<Rightarrow> int \<Rightarrow> int \<Rightarrow> error + Tile" where
  "get_tile g i j =
     (case py_get (grid g) i of
        Inl e \<Rightarrow> Inl e
      | Inr col \<Rightarrow> py_get col j)"

text \<open>
  A write to the tile object at \<open>self.grid[i][j]\<close>: either the assignment
  \<open>self.grid[i][j] = Tile()\<close>, or an assignment to fields of the tile bound by
  \<open>tile = self.grid[i][j]\<close>, which is the same object.
\<close>

definition set_tile :: "game \<Rightarrow> int \<Rightarrow> int \<Rightarrow> Tile \<Rightarrow> error + game" where
  "set_tile g i j t =
     (case py_get (grid g) i of
        Inl e \<Rightarrow> Inl e
      | Inr col \<Rightarrow>
          (case py_set col j t of
             Inl e \<Rightarrow> Inl e
           | Inr col' \<Rightarrow>
               (case py_set (grid g) i col' of
                  Inl e \<Rightarrow> Inl e
                | Inr grid' \<Rightarrow> Inr (g\<lparr>grid := grid'\<rparr>))))"

subsection \<open>Rounding of floats\<close>

text \<open>
  A Python \<open>float\<close> is an IEEE 754 binary64 number: 53 significant bits, least normal
  exponent \<open>-1022\<close>. \<open>bit_length n\<close> is the number of binary digits of \<open>n\<close>, and
  \<open>expo x\<close> is the exponent of \<open>x \<noteq> 0\<close>, the integer \<open>e\<close> with
  \<open>2 ^ e \<le> \<bar>x\<bar> < 2 ^ (e + 1)\<close>.
\<close>

fun bit_length :: "nat \<Rightarrow> nat" where
  "bit_length n = (if n = 0 then 0 else Suc (bit_length (n div 2)))"

declare bit_length.simps [simp del]

definition expo :: "rat \<Rightarrow> int" where
  "expo x =
     (let a = \<bar>x\<bar> in
      if 1 \<le> a then int (bit_length (nat \<lfloor>a\<rfloor>)) - 1
      else - int (bit_length (nat (\<lceil>1 / a\<rceil> - 1))))"

text \<open>The distance between neighbouring doubles around \<open>x\<close>.\<close>

definition ulp_of :: "rat \<Rightarrow> rat" where
  "ulp_of x =
     (let e = max (expo x) (- 1022) - 52
      in if 0 \<le> e then 2 ^ nat e else 1 / 2 ^ nat (- e))"

text \<open>The integer nearest to \<open>q\<close>; of two nearest integers the even one.\<close>

definition round_half_even :: "rat \<Rightarrow> int" where
  "round_half_even q =
     (let f = \<lfloor>q\<rfloor>; d = q - of_int f
      in if d < 1 / 2 then f
         else if 1 / 2 < d then f + 1
         else if even f then f else f + 1)"

text \<open>
  \<open>fl x\<close> is the result that a float operation with the exact value \<open>x\<close> delivers:
  the double nearest to \<open>x\<close>, ties to even. Overflow to infinity (beyond about
  \<open>1.8e308\<close>) is not modelled, and \<open>-0.0\<close> is \<open>0\<close>.
\<close>

definition fl :: "rat \<Rightarrow> rat" where
  "fl x = (if x = 0 then 0 else of_int (round_half_even (x / ulp_of x)) * ulp_of x)"

subsection \<open>Player commands\<close>

text \<open>
  \<open>handle_action(now)\<close>: plant on an empty tile, harvest a tile at stage 3. In the
  harvest branch the coins are added before \<open>harvest_log[tile.crop] += 1\<close>, which
  raises \<open>KeyError\<close> for a crop that is not a key of the dict.
\<close>

definition handle_action :: "rat \<Rightarrow> game \<Rightarrow> error + game" where
  "handle_action now g =
     (case get_tile g (player_x g) (player_y g) of
        Inl e \<Rightarrow> Inl e
      | Inr tile \<Rightarrow>
          (case crop tile of
             None \<Rightarrow>
               (let c = selected g in
                if coins g \<ge> seed_cost c then
                  set_tile (g\<lparr>coins := coins g - seed_cost c\<rparr>) (player_x g) (player_y g)
                    (tile\<lparr>crop := Some c, planted_at := now, stage := 0,
                          fertilized := False, flash_to := now + 3 / 10\<rparr>)
                else Inr g)
           | Some tc \<Rightarrow>
               if stage tile = 3 then
                 (let g1 = g\<lparr>coins := coins g + reward tc\<rparr> in
                  case harvest_log g1 tc of
                    None \<Rightarrow> Inl KeyError
                  | Some n \<Rightarrow>
                      set_tile (g1\<lparr>harvest_log := (harvest_log g1)(tc \<mapsto> n + 1)\<rparr>)
                        (player_x g) (player_y g) new_Tile)
               else Inr g))"

text \<open>
  \<open>handle_fertilizer(now)\<close>. Each of \<open>now - tile.planted_at\<close>,
  \<open>tile.crop.grow_time - elapsed\<close>, \<open>remaining / 2\<close> and \<open>tile.planted_at - \<dots>\<close> is a
  float operation and delivers the rounded value.
\<close>

definition handle_fertilizer :: "rat \<Rightarrow> game \<Rightarrow> error + game" where
  "handle_fertilizer now g =
     (if coins g < 5 then Inr g
      else
        case get_tile g (player_x g) (player_y g) of
          Inl e \<Rightarrow> Inl e
        | Inr tile \<Rightarrow>
            (case crop tile of
               None \<Rightarrow> Inr g
             | Some tc \<Rightarrow>
                 if \<not> fertilized tile then
                   (let elapsed = fl (now - planted_at tile);
                        remaining = max (fl (grow_time tc - elapsed)) 0
                    in set_tile (g\<lparr>coins := coins g - 5\<rparr>) (player_x g) (player_y g)
                         (tile\<lparr>planted_at := fl (planted_at tile - fl (remaining / 2)),
                               fertilized := True, sparkle_t := now\<rparr>))
                 else Inr g))"

text \<open>
  The keys of a \<open>KEYDOWN\<close> event that \<open>handle_input\<close> distinguishes; \<open>K_named s\<close> is
  any other key, with \<open>s = pygame.key.name(event.key)\<close>.
\<close>

datatype keycode = K_ESCAPE | K_w | K_s | K_a | K_d | K_SPACE | K_f | K_named string

datatype event = QUIT | KEYDOWN keycode | OTHER_EVENT

text \<open>
  The \<open>match event.key\<close> statement. \<open>K_ESCAPE\<close> posts a \<open>QUIT\<close> event to the queue
  of pygame, which is delivered by a later \<open>pygame.event.get()\<close>; the game object is
  not touched.
\<close>

definition handle_key :: "rat \<Rightarrow> keycode \<Rightarrow> game \<Rightarrow> error + game" where
  "handle_key now k g =
     (case k of
        K_ESCAPE \<Rightarrow> Inr g
      | K_w \<Rightarrow> Inr (g\<lparr>player_y := (player_y g - 1) mod ROWS\<rparr>)
      | K_s \<Rightarrow> Inr (g\<lparr>player_y := (player_y g + 1) mod ROWS\<rparr>)
      | K_a \<Rightarrow> Inr (g\<lparr>player_x := (player_x g - 1) mod COLS\<rparr>)
      | K_d \<Rightarrow> Inr (g\<lparr>player_x := (player_x g + 1) mod COLS\<rparr>)
      | K_SPACE \<Rightarrow> handle_action now g
      | K_f \<Rightarrow> handle_fertilizer now g
      | K_named s \<Rightarrow>
          (case CROP_BY_KEY s of
             Some c \<Rightarrow> Inr (g\<lparr>selected := c\<rparr>)
           | None \<Rightarrow> Inr g))"

text \<open>A \<open>for\<close> loop over a list whose body may raise.\<close>

fun for_each :: "'a list \<Rightarrow> ('a \<Rightarrow> 's \<Rightarrow> error + 's) \<Rightarrow> 's \<Rightarrow> error + 's" where
  "for_each [] f s = Inr s"
| "for_each (a # as) f s =
     (case f a s of
        Inl e \<Rightarrow> Inl e
      | Inr s' \<Rightarrow> for_each as f s')"

text \<open>
  \<open>handle_input(now)\<close> over the events returned by \<open>pygame.event.get()\<close>. A \<open>QUIT\<close>
  event ends the process (\<open>sys.exit()\<close>).
\<close>

definition handle_event :: "rat \<Rightarrow> event \<Rightarrow> game \<Rightarrow> error + game" where
  "handle_event now ev g =
     (case ev of
        QUIT \<Rightarrow> Inl SystemExit
      | KEYDOWN k \<Rightarrow> handle_key now k g
      | OTHER_EVENT \<Rightarrow> Inr g)"

definition handle_input :: "rat \<Rightarrow> event list \<Rightarrow> game \<Rightarrow> error + game" where
  "handle_input now evs g = for_each evs (handle_event now) g"

subsection \<open>Ambient reads: random numbers and the clock\<close>

text \<open>
  \<open>random.randrange(n)\<close> for \<open>n > 0\<close>: some integer of \<open>[0, n)\<close>; the raw draw is
  reduced modulo \<open>n\<close>, so every outcome is the image of some oracle.
\<close>

definition randrange :: "int \<Rightarrow> game \<Rightarrow> int \<times> game" where
  "randrange n g = (int (rand_src g (rand_pos g)) mod n, g\<lparr>rand_pos := rand_pos g + 1\<rparr>)"

text \<open>\<open>random.random()\<close>: a multiple of \<open>2 ** -53\<close> in \<open>[0, 1)\<close>.\<close>

definition random_random :: "game \<Rightarrow> rat \<times> game" where
  "random_random g =
     (of_nat (rand_src g (rand_pos g) mod 2 ^ 53) / 2 ^ 53, g\<lparr>rand_pos := rand_pos g + 1\<rparr>)"

text \<open>\<open>random.choice(seq)\<close> for a non-empty \<open>seq\<close>.\<close>

definition random_choice :: "'a list \<Rightarrow> game \<Rightarrow> 'a \<times> game" where
  "random_choice seq g =
     (seq ! (rand_src g (rand_pos g) mod length seq), g\<lparr>rand_pos := rand_pos g + 1\<rparr>)"

text \<open>\<open>time.time()\<close>\<close>

definition time_time :: "game \<Rightarrow> rat \<times> game" where
  "time_time g = (clock_src g (clock_pos g), g\<lparr>clock_pos := clock_pos g + 1\<rparr>)"

subsection \<open>Spawning a rabbit\<close>

text \<open>
  The loop \<open>for _ in range(30)\<close> of \<open>spawn_rabbit\<close>: the first argument is the number of
  iterations left, the second the values of \<open>(rx, ry)\<close> bound so far (\<open>None\<close> before
  the first iteration). \<open>break\<close> returns at once.
\<close>

fun spawn_try :: "nat \<Rightarrow> (int \<times> int) option \<Rightarrow> game \<Rightarrow> (int \<times> int) option \<times> game" where
  "spawn_try 0 bound g = (bound, g)"
| "spawn_try (Suc n) bound g =
     (let (rx, g1) = randrange COLS g;
          (ry, g2) = randrange ROWS g1
      in if (rx, ry) \<noteq> (player_x g2, player_y g2) then (Some (rx, ry), g2)
         else spawn_try n (Some (rx, ry)) g2)"

text \<open>
  \<open>spawn_rabbit()\<close>. In \<open>Rabbit(rx, ry, time.time() + random.random() * RABBIT_MOVE_INT)\<close>
  the clock is read before the random number is drawn. Reading \<open>rx\<close> before any
  iteration bound it would raise \<open>NameError\<close>.
\<close>

definition spawn_rabbit :: "game \<Rightarrow> error + game" where
  "spawn_rabbit g =
     (case spawn_try 30 None g of
        (None, g1) \<Rightarrow> Inl NameError
      | (Some (rx, ry), g1) \<Rightarrow>
          (let (t, g2) = time_time g1;
               (u, g3) = random_random g2
           in Inr (g3\<lparr>rabbits := rabbits g3 @
                      [\<lparr>rabbit_x = rx, rabbit_y = ry,
                        next_move = t + u * RABBIT_MOVE_INT\<rparr>]\<rparr>)))"

subsection \<open>Growth\<close>

text \<open>\<open>int(q)\<close> of a float: truncation towards zero.\<close>

definition py_int :: "rat \<Rightarrow> int" where
  "py_int q = (if 0 \<le> q then \<lfloor>q\<rfloor> else \<lceil>q\<rceil>)"

text \<open>\<open>range(n)\<close> as the list of its values.\<close>

definition py_range :: "int \<Rightarrow> int list" where
  "py_range n = map int [0..<nat n]"

text \<open>
  The body of the two nested loops of \<open>update_growth\<close> for one \<open>(gx, gy)\<close>. The division
  \<open>elapsed / tile.crop.grow_time\<close> raises \<open>ZeroDivisionError\<close> for a zero divisor.
\<close>

definition growth_body :: "rat \<Rightarrow> int \<Rightarrow> int \<Rightarrow> game \<Rightarrow> error + game" where
  "growth_body now gx gy g =
     (case get_tile g gx gy of
        Inl e \<Rightarrow> Inl e
      | Inr tile \<Rightarrow>
          (case crop tile of
             None \<Rightarrow> Inr g
           | Some tc \<Rightarrow>
               if stage tile = 3 then Inr g
               else if grow_time tc = 0 then Inl ZeroDivisionError
               else
                 (let elapsed = now - planted_at tile;
                      new_stage = min (py_int ((elapsed / grow_time tc) * 4)) 3
                  in if new_stage \<noteq> stage tile then
                       (case (if new_stage = 3 then spawn_rabbit g else Inr g) of
                          Inl e \<Rightarrow> Inl e
                        | Inr g1 \<Rightarrow> set_tile g1 gx gy (tile\<lparr>stage := new_stage\<rparr>))
                     else Inr g)))"

definition update_growth :: "rat \<Rightarrow> game \<Rightarrow> error + game" where
  "update_growth now g =
     for_each (py_range COLS)
       (\<lambda>gx. for_each (py_range ROWS) (\<lambda>gy. growth_body now gx gy)) g"

subsection \<open>Rabbits\<close>

text \<open>
  The body of \<open>for rabbit in self.rabbits\<close> for the rabbit at index \<open>i\<close>: the rabbit
  object is updated in place, then the tile under it is checked.
\<close>

definition rabbit_body :: "rat \<Rightarrow> nat \<Rightarrow> game \<Rightarrow> error + game" where
  "rabbit_body now i g =
     (case py_get (rabbits g) (int i) of
        Inl e \<Rightarrow> Inl e
      | Inr rabbit \<Rightarrow>
          (let (rabbit1, g1) =
                 (if now \<ge> next_move rabbit then
                    (let ((dx, dy), g') = random_choice [(0, -1), (0, 1), (-1, 0), (1, 0)] g
                     in (rabbit\<lparr>rabbit_x := (rabbit_x rabbit + dx) mod COLS,
                                 rabbit_y := (rabbit_y rabbit + dy) mod ROWS,
                                 next_move := now + RABBIT_MOVE_INT\<rparr>, g'))
                  else (rabbit, g));
               g2 = g1\<lparr>rabbits := (rabbits g1)[i := rabbit1]\<rparr>
           in case get_tile g2 (rabbit_x rabbit1) (rabbit_y rabbit1) of
                Inl e \<Rightarrow> Inl e
              | Inr tile \<Rightarrow>
                  if crop tile \<noteq> None \<and> stage tile = 3
                  then set_tile g2 (rabbit_x rabbit1) (rabbit_y rabbit1) new_Tile
                  else Inr g2))"

definition update_rabbits :: "rat \<Rightarrow> game \<Rightarrow> error + game" where
  "update_rabbits now g = for_each [0..<length (rabbits g)] (rabbit_body now) g"

text \<open>One pass of the loop of \<open>run\<close>, without rendering.\<close>

definition tick :: "rat \<Rightarrow> event list \<Rightarrow> game \<Rightarrow> error + game" where
  "tick now evs g =
     (case handle_input now evs g of
        Inl e \<Rightarrow> Inl e
      | Inr g1 \<Rightarrow>
          (case update_growth now g1 of
             Inl e \<Rightarrow> Inl e
           | Inr g2 \<Rightarrow> update_rabbits now g2))"

text \<open>
  The loop of \<open>run\<close> calls \<open>handle_input\<close>, \<open>update_growth\<close> and \<open>update_rabbits\<close> in turn,
  each with the time of the frame. \<open>run_steps\<close> performs any sequence of such calls and
  stops at the first exception.
\<close>

datatype step = Input rat "event list" | Growth rat | Rabbits rat

definition do_step :: "step \<Rightarrow> game \<Rightarrow> error + game" where
  "do_step s g =
     (case s of
        Input now evs \<Rightarrow> handle_input now evs g
      | Growth now \<Rightarrow> update_growth now g
      | Rabbits now \<Rightarrow> update_rabbits now g)"

definition run_steps :: "step list \<Rightarrow> game \<Rightarrow> error + game" where
  "run_steps steps g = for_each steps do_step g"

subsection \<open>Well-formed states\<close>

definition cell :: "game \<Rightarrow> int \<Rightarrow> int \<Rightarrow> Tile" where
  "cell g i j = grid g ! nat i ! nat j"

definition in_field :: "int \<Rightarrow> int \<Rightarrow> bool" where
  "in_field i j \<longleftrightarrow> 0 \<le> i \<and> i < COLS \<and> 0 \<le> j \<and> j < ROWS"

definition wf_grid :: "game \<Rightarrow> bool" where
  "wf_grid g \<longleftrightarrow>
     length (grid g) = nat COLS \<and> (\<forall>col \<in> set (grid g). length col = nat ROWS)"

definition put_cell :: "game \<Rightarrow> int \<Rightarrow> int \<Rightarrow> Tile \<Rightarrow> game" where
  "put_cell g i j t = g\<lparr>grid := (grid g)[nat i := (grid g ! nat i)[nat j := t]]\<rparr>"

subsection \<open>Derived quantities used in the statements\<close>

text \<open>
  The remaining growth time as \<open>handle_fertilizer\<close> computes it:
  \<open>max(tile.crop.grow_time - (now - tile.planted_at), 0)\<close>, in float arithmetic.
\<close>

definition remaining_time :: "rat \<Rightarrow> Tile \<Rightarrow> rat" where
  "remaining_time now tile =
     (case crop tile of
        None \<Rightarrow> 0
      | Some tc \<Rightarrow> max (fl (grow_time tc - fl (now - planted_at tile))) 0)"

text \<open>A rational that is a double: rounding leaves it as it is.\<close>

definition is_double :: "rat \<Rightarrow> bool" where
  "is_double x \<longleftrightarrow> fl x = x"

text \<open>
  The \<open>k\<close>-th pair \<open>(rx, ry)\<close> that the loop of \<open>spawn_rabbit\<close> draws when it is
  entered in state \<open>g\<close>.
\<close>

definition spawn_draw :: "game \<Rightarrow> nat \<Rightarrow> int \<times> int" where
  "spawn_draw g k =
     (int (rand_src g (rand_pos g + 2 * k)) mod COLS,
      int (rand_src g (rand_pos g + 2 * k + 1)) mod ROWS)"

text \<open>
  The tile that the body of \<open>update_growth\<close> leaves for a tile \<open>tile\<close>: an empty tile and
  a tile at stage 3 are skipped, any other tile gets the recomputed stage.
\<close>

definition grown :: "rat \<Rightarrow> Tile \<Rightarrow> Tile" where
  "grown now tile =
     (case crop tile of
        None \<Rightarrow> tile
      | Some tc \<Rightarrow>
          if stage tile = 3 then tile
          else tile\<lparr>stage := min (py_int (((now - planted_at tile) / grow_time tc) * 4)) 3\<rparr>)"

definition ripens :: "rat \<Rightarrow> Tile \<Rightarrow> bool" where
  "ripens now tile \<longleftrightarrow>
     crop tile \<noteq> None \<and> stage tile \<noteq> 3 \<and> stage (grown now tile) = 3"

definition crops_ok :: "game \<Rightarrow> bool" where
  "crops_ok g \<longleftrightarrow>
     (\<forall>col \<in> set (grid g). \<forall>t \<in> set col. \<forall>c. crop t = Some c \<longrightarrow> grow_time c \<noteq> 0)"

text \<open>Every rabbit is on a position of the grid.\<close>

definition rabbits_ok :: "game \<Rightarrow> bool" where
  "rabbits_ok g \<longleftrightarrow> (\<forall>r \<in> set (rabbits g). in_field (rabbit_x r) (rabbit_y r))"

definition field :: "(int \<times> int) set" where
  "field = {0..<COLS} \<times> {0..<ROWS}"

definition grew :: "rat \<Rightarrow> (int \<times> int) set \<Rightarrow> game \<Rightarrow> game \<Rightarrow> bool" where
  "grew now S g g' \<longleftrightarrow>
     wf_grid g'
     \<and> coins g' = coins g \<and> harvest_log g' = harvest_log g
     \<and> player_x g' = player_x g \<and> player_y g' = player_y g \<and> selected g' = selected g
     \<and> rand_src g' = rand_src g \<and> clock_src g' = clock_src g
     \<and> (\<forall>i j. in_field i j \<longrightarrow>
           cell g' i j = (if (i, j) \<in> S then grown now (cell g i j) else cell g i j))
     \<and> length (rabbits g') =
         length (rabbits g) + card {p \<in> S. ripens now (cell g (fst p) (snd p))}
     \<and> take (length (rabbits g)) (rabbits g') = rabbits g
     \<and> (rabbits_ok g \<longrightarrow> rabbits_ok g')"

text \<open>
  What a run of rabbit hops may change between two states: rabbits move, and tiles are
  reset to \<open>Tile()\<close>; nothing else.
\<close>

definition hopped :: "game \<Rightarrow> game \<Rightarrow> bool" where
  "hopped g g' \<longleftrightarrow>
     wf_grid g' \<and> rabbits_ok g'
     \<and> coins g' = coins g \<and> harvest_log g' = harvest_log g
     \<and> player_x g' = player_x g \<and> player_y g' = player_y g \<and> selected g' = selected g
     \<and> length (rabbits g') = length (rabbits g)
     \<and> (\<forall>i j. in_field i j \<longrightarrow> cell g' i j = cell g i j \<or> cell g' i j = new_Tile)"

text \<open>
  The states the game can be in: the grid has its shape, the cursor and the rabbits are
  on the grid, the coins are not negative, and every crop in use is one of \<open>CROPS\<close>.
\<close>

definition sound :: "game \<Rightarrow> bool" where
  "sound g \<longleftrightarrow>
     wf_grid g \<and> in_field (player_x g) (player_y g) \<and> rabbits_ok g
     \<and> 0 \<le> coins g \<and> selected g \<in> set CROPS
     \<and> (\<forall>i j c. in_field i j \<and> crop (cell g i j) = Some c \<longrightarrow> c \<in> set CROPS)"

subsection \<open>Concrete states used by the examples\<close>

text \<open>
  A generator whose raw draws are all 0, and a clock that reads 240 at every call (the
  calls are those of \<open>spawn_rabbit\<close>).
\<close>

definition zero_rand :: "nat \<Rightarrow> nat" where
  "zero_rand i = 0"

definition frozen_clock :: "nat \<Rightarrow> rat" where
  "frozen_clock i = 240"

definition demo_start :: game where
  "demo_start = init_game zero_rand frozen_clock"



text \<open>The start state with only 2 coins.\<close>

definition demo_poor :: game where
  "demo_poor = demo_start\<lparr>coins := 2\<rparr>"

text \<open>Corn planted at the cursor \<open>(0, 0)\<close> at time 0 (the result of the action key).\<close>

definition corn_tile :: Tile where
  "corn_tile = \<lparr>crop = Some Corn, planted_at = 0, stage = 0, fertilized = False,
                flash_to = 3 / 10, sparkle_t = 0\<rparr>"

definition corn_planted :: game where
  "corn_planted = put_cell (demo_start\<lparr>coins := 20\<rparr>) 0 0 corn_tile"

text \<open>
  Corn planted at the cursor \<open>(0, 0)\<close> at the Unix time 1793750400 (midnight UTC of
  4 November 2026), by the action key in the start state.
\<close>

definition epoch_tile :: Tile where
  "epoch_tile = \<lparr>crop = Some Corn, planted_at = 1793750400, stage = 0, fertilized = False,
                 flash_to = 1793750400 + 3 / 10, sparkle_t = 0\<rparr>"

definition epoch_planted :: game where
  "epoch_planted = put_cell (demo_start\<lparr>coins := 20\<rparr>) 0 0 epoch_tile"

text \<open>
  The corn at stage 3 after the growth update at time 240, with the rabbit spawned when
  it ripened: under \<open>zero_rand\<close> all 30 draws hit the player's tile, so the rabbit sits
  at \<open>(0, 0)\<close>, and its jitter is 0.
\<close>

definition corn_ripe :: game where
  "corn_ripe =
     put_cell (corn_planted\<lparr>rabbits := [\<lparr>rabbit_x = 0, rabbit_y = 0, next_move = 240\<rparr>],
                            rand_pos := 61, clock_pos := 1\<rparr>)
       0 0 (corn_tile\<lparr>stage := 3\<rparr>)"

definition corn_harvested :: game where
  "corn_harvested =
     put_cell (corn_ripe\<lparr>coins := 32, harvest_log := (harvest_log corn_ripe)(Corn \<mapsto> 1)\<rparr>)
       0 0 new_Tile"

text \<open>
  The scenario of a bean (grow time 150, seed cost 3, reward 8) planted at the cursor
  \<open>(0, 0)\<close> at time 0 from the start state, for any generator and clock.
\<close>

definition bean_tile :: Tile where
  "bean_tile = \<lparr>crop = Some Bean, planted_at = 0, stage = 0, fertilized = False,
                flash_to = 3 / 10, sparkle_t = 0\<rparr>"

definition bean_field :: "(nat \<Rightarrow> nat) \<Rightarrow> (nat \<Rightarrow> rat) \<Rightarrow> game" where
  "bean_field rs cs = put_cell ((init_game rs cs)\<lparr>selected := Bean, coins := 22\<rparr>) 0 0 bean_tile"

text \<open>
  A crop with grow time 200 (none of \<open>CROPS\<close> has it), planted at \<open>(0, 0)\<close> at time 0 and
  at stage 1, as the growth updates up to time 99 leave it; and the state after the
  fertilizer key at time 100.
\<close>

definition Slow :: CropType where
  "Slow = mk_crop ''7'' ''Slow'' 200 5 12"

definition slow_tile :: Tile where
  "slow_tile = \<lparr>crop = Some Slow, planted_at = 0, stage = 1, fertilized = False,
                flash_to = 3 / 10, sparkle_t = 0\<rparr>"

definition slow_planted :: game where
  "slow_planted = put_cell (demo_start\<lparr>selected := Slow, coins := 20\<rparr>) 0 0 slow_tile"

definition slow_fertilized :: game where
  "slow_fertilized =
     put_cell (slow_planted\<lparr>coins := 15\<rparr>) 0 0
       (slow_tile\<lparr>planted_at := - 50, fertilized := True, sparkle_t := 100\<rparr>)"

text \<open>The ripe corn with a rabbit resting on it until time 300.\<close>

definition corn_rested :: game where
  "corn_rested = corn_ripe\<lparr>rabbits := [\<lparr>rabbit_x = 0, rabbit_y = 0, next_move = 300\<rparr>]\<rparr>"

section \<open>Basic facts\<close>

lemma get_tile_wf:
  assumes "wf_grid g" "in_field i j"
  shows "get_tile g i j = Inr (cell g i j)"
proof -
  from assms have i: "nat i < length (grid g)" and i0: "0 \<le> i" "i < int (length (grid g))"
    by (auto simp: wf_grid_def in_field_def)
  then have "grid g ! nat i \<in> set (grid g)" by simp
  with assms have "length (grid g ! nat i) = nat ROWS"
    by (simp add: wf_grid_def)
  with assms i0 show ?thesis
    by (auto simp: get_tile_def py_get_def py_index_def cell_def in_field_def)
qed

lemma set_tile_wf:
  assumes "wf_grid g" "in_field i j"
  shows "set_tile g i j t = Inr (put_cell g i j t)"
proof -
  from assms have i: "nat i < length (grid g)" and i0: "0 \<le> i" "i < int (length (grid g))"
    by (auto simp: wf_grid_def in_field_def)
  then have "grid g ! nat i \<in> set (grid g)" by simp
  with assms have "length (grid g ! nat i) = nat ROWS"
    by (simp add: wf_grid_def)
  with assms i0 show ?thesis
    by (auto simp: set_tile_def py_get_def py_set_def py_index_def put_cell_def in_field_def)
qed

lemma wf_grid_put_cell:
  assumes "wf_grid g"
  shows "wf_grid (put_cell g i j t)"
proof (cases "nat i < length (grid g)")
  case True
  then have "grid g ! nat i \<in> set (grid g)" by simp
  with assms have "length ((grid g ! nat i)[nat j := t]) = nat ROWS"
    by (simp add: wf_grid_def)
  with assms show ?thesis
    by (auto simp: wf_grid_def put_cell_def dest!: set_update_subset_insert [THEN subsetD])
next
  case False
  then have "(grid g)[nat i := (grid g ! nat i)[nat j := t]] = grid g"
    by (intro list_update_beyond) simp
  with assms show ?thesis by (simp add: wf_grid_def put_cell_def)
qed

lemma cell_put_cell:
  assumes "wf_grid g" "in_field i j" "in_field i' j'"
  shows "cell (put_cell g i j t) i' j' = (if i' = i \<and> j' = j then t else cell g i' j')"
proof -
  from assms have i: "nat i < length (grid g)" "nat i' < length (grid g)"
    by (auto simp: wf_grid_def in_field_def)
  then have "grid g ! nat i \<in> set (grid g)" by simp
  with assms have "nat j < length (grid g ! nat i)"
    by (simp add: wf_grid_def in_field_def)
  with assms i show ?thesis
    by (auto simp: cell_def put_cell_def in_field_def nth_list_update)
qed

section \<open>Rounding to doubles\<close>

lemma bit_length_eq: "2 ^ k \<le> n \<Longrightarrow> n < 2 ^ Suc k \<Longrightarrow> bit_length n = Suc k"
proof (induction k arbitrary: n)
  case 0
  then have "n = 1" by simp
  then show ?case by (simp add: bit_length.simps)
next
  case (Suc k)
  from Suc.prems have "2 ^ k \<le> n div 2" "n div 2 < 2 ^ Suc k" by auto
  then have "bit_length (n div 2) = Suc k" by (rule Suc.IH)
  moreover from Suc.prems have "n \<noteq> 0" by auto
  ultimately show ?case by (subst bit_length.simps) simp
qed

lemma bit_length_bounds:
  "0 < n \<Longrightarrow> 2 ^ (bit_length n - 1) \<le> n \<and> n < 2 ^ bit_length n"
proof (induction n rule: bit_length.induct)
  case (1 n)
  show ?case
  proof (cases "n div 2 = 0")
    case True
    with 1(2) have "n = 1" by presburger
    then show ?thesis by (simp add: bit_length.simps)
  next
    case False
    with 1 have ih: "2 ^ (bit_length (n div 2) - 1) \<le> n div 2"
      "n div 2 < 2 ^ bit_length (n div 2)" by simp_all
    from False have pos: "0 < bit_length (n div 2)"
      by (subst bit_length.simps) simp
    from 1(2) have bl: "bit_length n = Suc (bit_length (n div 2))"
      by (subst bit_length.simps) simp
    from pos obtain b where b: "bit_length (n div 2) = Suc b" by (cases "bit_length (n div 2)") auto
    from ih b have "2 * 2 ^ b \<le> n" "n < 2 * (2 * 2 ^ b)" by simp_all
    with bl b show ?thesis by simp
  qed
qed

lemma expo_eq:
  assumes "2 ^ k \<le> \<bar>x\<bar>" "\<bar>x\<bar> < 2 ^ Suc k"
  shows "expo x = int k"
proof -
  have one: "1 \<le> \<bar>x\<bar>"
    using assms(1) one_le_power [of "2::rat" k] by linarith
  let ?n = "nat \<lfloor>\<bar>x\<bar>\<rfloor>"
  have f0: "0 \<le> \<lfloor>\<bar>x\<bar>\<rfloor>" by simp
  have "(2::int) ^ k \<le> \<lfloor>\<bar>x\<bar>\<rfloor>"
    using assms(1) by (simp add: le_floor_iff)
  with f0 have lo: "2 ^ k \<le> ?n"
    by (simp add: le_nat_iff)
  have "\<lfloor>\<bar>x\<bar>\<rfloor> < (2::int) ^ Suc k"
    using assms(2) by (simp add: floor_less_iff)
  with f0 have hi: "?n < 2 ^ Suc k"
    by (simp add: nat_less_iff)
  from lo hi have "bit_length ?n = Suc k" by (rule bit_length_eq)
  with one show ?thesis by (simp add: expo_def)
qed

lemma round_half_even_int: "round_half_even (of_int m) = m"
  by (simp add: round_half_even_def)

lemma round_half_even_tie:
  "round_half_even (of_int m + 1 / 2) = (if even m then m else m + 1)"
proof -
  have "\<lfloor>(of_int m + 1 / 2 :: rat)\<rfloor> = m" by (simp add: floor_eq_iff)
  then show ?thesis by (simp add: round_half_even_def)
qed

lemma ulp_of_eq:
  assumes "2 ^ k \<le> \<bar>x\<bar>" "\<bar>x\<bar> < 2 ^ Suc k" "k \<le> 52"
  shows "ulp_of x = 1 / 2 ^ (52 - k)"
proof -
  have "expo x = int k" using assms(1,2) by (rule expo_eq)
  with assms(3) show ?thesis
    by (cases "k = 52") (simp_all add: ulp_of_def nat_diff_distrib' of_nat_diff)
qed

text \<open>
  A number of magnitude in \<open>[2 ^ k, 2 ^ (k + 1))\<close>, \<open>k \<le> 52\<close>, that is a multiple of
  \<open>2 ^ (k - 52)\<close> is a double; one that lies half way between two such multiples is
  rounded to the even one.
\<close>

lemma fl_exactI:
  assumes "2 ^ k \<le> \<bar>x\<bar>" "\<bar>x\<bar> < 2 ^ Suc k" "k \<le> 52" "x * 2 ^ (52 - k) = of_int m"
  shows "fl x = x"
proof -
  have u: "ulp_of x = 1 / 2 ^ (52 - k)" using assms(1-3) by (rule ulp_of_eq)
  have "(0::rat) < 2 ^ k" by simp
  then have "0 < \<bar>x\<bar>" using assms(1) by (rule less_le_trans)
  then have nz: "x \<noteq> 0" by simp
  have "x / ulp_of x = of_int m" using assms(4) by (simp add: u)
  then have "fl x = of_int m * ulp_of x" using nz by (simp add: fl_def round_half_even_int)
  also have "\<dots> = x" using assms(4) [symmetric] by (simp add: u)
  finally show ?thesis .
qed

lemma fl_tieI:
  assumes "2 ^ k \<le> \<bar>x\<bar>" "\<bar>x\<bar> < 2 ^ Suc k" "k \<le> 52"
    and "x * 2 ^ (52 - k) = of_int m + 1 / 2"
  shows "fl x = of_int (if even m then m else m + 1) / 2 ^ (52 - k)"
proof -
  have u: "ulp_of x = 1 / 2 ^ (52 - k)" using assms(1-3) by (rule ulp_of_eq)
  have "(0::rat) < 2 ^ k" by simp
  then have "0 < \<bar>x\<bar>" using assms(1) by (rule less_le_trans)
  then have nz: "x \<noteq> 0" by simp
  have "x / ulp_of x = of_int m + 1 / 2" using assms(4) by (simp add: u)
  then show ?thesis using nz by (simp add: fl_def round_half_even_tie u)
qed

text \<open>Every integer below \<open>2 ^ 53\<close> in magnitude is a double.\<close>

lemma fl_of_int:
  assumes "\<bar>n\<bar> < 2 ^ 53"
  shows "fl (of_int n) = of_int n"
proof (cases "n = 0")
  case True
  then show ?thesis by (simp add: fl_def)
next
  case False
  define N where "N = nat \<bar>n\<bar>"
  define k where "k = bit_length N - 1"
  from False have N: "0 < N" "int N = \<bar>n\<bar>" by (simp_all add: N_def)
  from bit_length_bounds [OF N(1)] have b: "2 ^ k \<le> N" "N < 2 ^ bit_length N"
    by (simp_all add: k_def)
  from N(1) have "0 < bit_length N" by (subst bit_length.simps) simp
  then have sk: "bit_length N = Suc k" by (simp add: k_def)
  have ax: "\<bar>of_int n :: rat\<bar> = of_nat N"
    using N(2) by (metis of_int_abs of_int_of_nat_eq)
  have lo: "(2::rat) ^ k \<le> \<bar>of_int n\<bar>"
    unfolding ax using b(1) by (metis of_nat_le_iff of_nat_numeral of_nat_power)
  have hi: "\<bar>of_int n :: rat\<bar> < 2 ^ Suc k"
    unfolding ax using b(2) sk by (metis of_nat_less_iff of_nat_numeral of_nat_power)
  from assms N(2) have "N < 2 ^ 53" by (simp add: N_def)
  with b(1) have "(2::nat) ^ k < 2 ^ 53" by (rule le_less_trans)
  from power_less_imp_less_exp [OF _ this] have k52: "k \<le> 52" by simp
  have "(of_int n :: rat) * 2 ^ (52 - k) = of_int (n * 2 ^ (52 - k))" by simp
  with lo hi k52 show ?thesis by (rule fl_exactI)
qed

lemma fl_numeral:
  "numeral w < (2 ^ 53 :: int) \<Longrightarrow> fl (numeral w) = numeral w"
  "numeral w < (2 ^ 53 :: int) \<Longrightarrow> fl (- numeral w) = - numeral w"
  using fl_of_int [of "numeral w"] fl_of_int [of "- numeral w"] by simp_all

lemma fl_zero: "fl 0 = 0"
  by (simp add: fl_def)

text \<open>The rounded value lies within half a unit in the last place of the exact one.\<close>

lemma round_half_even_error: "\<bar>of_int (round_half_even q) - q\<bar> \<le> (1 / 2 :: rat)"
proof -
  define f where "f = \<lfloor>q\<rfloor>"
  have b: "of_int f \<le> q" "q < of_int f + 1"
    unfolding f_def by linarith+
  have "round_half_even q =
      (if q - of_int f < 1 / 2 then f
       else if 1 / 2 < q - of_int f then f + 1
       else if even f then f else f + 1)"
    by (simp add: round_half_even_def f_def Let_def)
  with b show ?thesis
    by (auto simp: abs_if)
qed

lemma ulp_of_pos: "0 < ulp_of x"
  by (simp add: ulp_of_def Let_def)

lemma fl_error: "\<bar>fl x - x\<bar> \<le> ulp_of x / 2"
proof (cases "x = 0")
  case True
  then show ?thesis using ulp_of_pos [of 0] by (simp add: fl_def)
next
  case False
  define u where "u = ulp_of x"
  have u: "0 < u" by (simp add: u_def ulp_of_pos)
  have "fl x - x = (of_int (round_half_even (x / u)) - x / u) * u"
    using False u by (simp add: fl_def u_def [symmetric] field_simps)
  then have "\<bar>fl x - x\<bar> = \<bar>of_int (round_half_even (x / u)) - x / u\<bar> * u"
    using u by (simp add: abs_mult)
  also have "\<dots> \<le> 1 / 2 * u"
    using round_half_even_error [of "x / u"] u by (intro mult_right_mono) simp_all
  finally show ?thesis by (simp add: u_def)
qed

section \<open>Player commands and spawning\<close>

lemma put_cell_fields [simp]:
  "coins (put_cell g i j t) = coins g"
  "harvest_log (put_cell g i j t) = harvest_log g"
  "rabbits (put_cell g i j t) = rabbits g"
  "player_x (put_cell g i j t) = player_x g"
  "player_y (put_cell g i j t) = player_y g"
  "selected (put_cell g i j t) = selected g"
  "rand_src (put_cell g i j t) = rand_src g"
  "rand_pos (put_cell g i j t) = rand_pos g"
  "clock_src (put_cell g i j t) = clock_src g"
  "clock_pos (put_cell g i j t) = clock_pos g"
  by (simp_all add: put_cell_def)

lemma wf_grid_upd [simp]:
  "wf_grid (g\<lparr>coins := a\<rparr>) = wf_grid g"
  "wf_grid (g\<lparr>harvest_log := b\<rparr>) = wf_grid g"
  "wf_grid (g\<lparr>rabbits := c\<rparr>) = wf_grid g"
  "wf_grid (g\<lparr>player_x := d\<rparr>) = wf_grid g"
  "wf_grid (g\<lparr>player_y := d\<rparr>) = wf_grid g"
  "wf_grid (g\<lparr>selected := e\<rparr>) = wf_grid g"
  "wf_grid (g\<lparr>rand_pos := f\<rparr>) = wf_grid g"
  "wf_grid (g\<lparr>clock_pos := f\<rparr>) = wf_grid g"
  by (simp_all add: wf_grid_def)

lemma cell_upd [simp]:
  "cell (g\<lparr>coins := a\<rparr>) = cell g"
  "cell (g\<lparr>harvest_log := b\<rparr>) = cell g"
  "cell (g\<lparr>rabbits := c\<rparr>) = cell g"
  "cell (g\<lparr>player_x := d\<rparr>) = cell g"
  "cell (g\<lparr>player_y := d\<rparr>) = cell g"
  "cell (g\<lparr>selected := e\<rparr>) = cell g"
  "cell (g\<lparr>rand_pos := f\<rparr>) = cell g"
  "cell (g\<lparr>clock_pos := f\<rparr>) = cell g"
  by (simp_all add: cell_def fun_eq_iff)

lemma wf_grid_init: "wf_grid (init_game rs cs)"
  by (simp add: wf_grid_def init_game_def)

lemma cell_init: "in_field i j \<Longrightarrow> cell (init_game rs cs) i j = new_Tile"
  by (simp add: cell_def init_game_def in_field_def)

lemma in_field_origin: "in_field 0 0"
  by (simp add: in_field_def COLS_def ROWS_def)

lemma crops_distinct:
  "Corn \<noteq> Potato" "Corn \<noteq> Tomato" "Corn \<noteq> Bean" "Corn \<noteq> Cabbage" "Corn \<noteq> Broccoli"
  "Bean \<noteq> Cabbage" "Bean \<noteq> Broccoli" "Bean \<noteq> Corn" "Bean \<noteq> Potato" "Bean \<noteq> Tomato"
  by (simp_all add: Corn_def Potato_def Tomato_def Bean_def Cabbage_def Broccoli_def mk_crop_def)

lemma harvest_log_init:
  "harvest_log (init_game rs cs) Corn = Some 0"
  "harvest_log (init_game rs cs) Bean = Some 0"
  by (simp_all add: init_game_def CROPS_def crops_distinct)

lemma demo_start_fields:
  "wf_grid demo_start" "player_x demo_start = 0" "player_y demo_start = 0"
  "coins demo_start = 25" "selected demo_start = Corn" "rabbits demo_start = []"
  "cell demo_start 0 0 = new_Tile" "harvest_log demo_start Corn = Some 0"
  by (simp_all add: demo_start_def wf_grid_init cell_init in_field_origin harvest_log_init)
     (simp_all add: init_game_def CROPS_def)

lemma demo_poor_fields:
  "wf_grid demo_poor" "player_x demo_poor = 0" "player_y demo_poor = 0"
  "coins demo_poor = 2" "selected demo_poor = Corn" "cell demo_poor 0 0 = new_Tile"
  by (simp_all add: demo_poor_def demo_start_fields)

lemma corn_planted_fields:
  "wf_grid corn_planted" "player_x corn_planted = 0" "player_y corn_planted = 0"
  "coins corn_planted = 20" "selected corn_planted = Corn" "rabbits corn_planted = []"
  "cell corn_planted 0 0 = corn_tile" "harvest_log corn_planted Corn = Some 0"
  by (simp_all add: corn_planted_def demo_start_fields wf_grid_put_cell cell_put_cell
      in_field_origin)

lemma corn_ripe_fields:
  "wf_grid corn_ripe" "player_x corn_ripe = 0" "player_y corn_ripe = 0"
  "coins corn_ripe = 20" "selected corn_ripe = Corn"
  "rabbits corn_ripe = [\<lparr>rabbit_x = 0, rabbit_y = 0, next_move = 240\<rparr>]"
  "cell corn_ripe 0 0 = corn_tile\<lparr>stage := 3\<rparr>" "harvest_log corn_ripe Corn = Some 0"
  by (simp_all add: corn_ripe_def corn_planted_fields wf_grid_put_cell cell_put_cell
      in_field_origin)

lemma corn_tile_fields:
  "crop corn_tile = Some Corn" "planted_at corn_tile = 0" "stage corn_tile = 0"
  "\<not> fertilized corn_tile" "grow_time Corn = 240" "seed_cost Corn = 5" "reward Corn = 12"
  "crop new_Tile = None"
  by (simp_all add: corn_tile_def Corn_def mk_crop_def new_Tile_def)

lemma handle_fertilizer_wf:
  assumes "wf_grid g" "in_field (player_x g) (player_y g)"
  shows "handle_fertilizer now g =
     (let tile = cell g (player_x g) (player_y g) in
      if 5 \<le> coins g \<and> crop tile \<noteq> None \<and> \<not> fertilized tile then
        Inr (put_cell (g\<lparr>coins := coins g - 5\<rparr>) (player_x g) (player_y g)
               (tile\<lparr>planted_at := fl (planted_at tile - fl (remaining_time now tile / 2)),
                     fertilized := True, sparkle_t := now\<rparr>))
      else Inr g)"
  using assms
  by (auto simp: handle_fertilizer_def get_tile_wf set_tile_wf remaining_time_def Let_def
      split: option.splits)

lemma handle_action_wf:
  assumes "wf_grid g" "in_field (player_x g) (player_y g)"
  shows "handle_action now g =
     (let tile = cell g (player_x g) (player_y g) in
      case crop tile of
        None \<Rightarrow>
          if seed_cost (selected g) \<le> coins g then
            Inr (put_cell (g\<lparr>coins := coins g - seed_cost (selected g)\<rparr>)
                   (player_x g) (player_y g)
                   (tile\<lparr>crop := Some (selected g), planted_at := now, stage := 0,
                         fertilized := False, flash_to := now + 3 / 10\<rparr>))
          else Inr g
      | Some tc \<Rightarrow>
          if stage tile = 3 then
            (case harvest_log g tc of
               None \<Rightarrow> Inl KeyError
             | Some n \<Rightarrow>
                 Inr (put_cell (g\<lparr>coins := coins g + reward tc,
                                  harvest_log := (harvest_log g)(tc \<mapsto> n + 1)\<rparr>)
                        (player_x g) (player_y g) new_Tile))
          else Inr g)"
  using assms
  by (auto simp: handle_action_def get_tile_wf set_tile_wf Let_def split: option.splits)

lemma epoch_fields:
  "wf_grid epoch_planted" "player_x epoch_planted = 0" "player_y epoch_planted = 0"
  "coins epoch_planted = 20" "cell epoch_planted 0 0 = epoch_tile"
  "crop epoch_tile = Some Corn" "planted_at epoch_tile = 1793750400"
  "\<not> fertilized epoch_tile"
  by (simp_all add: epoch_planted_def epoch_tile_def demo_start_fields wf_grid_put_cell
      cell_put_cell in_field_origin)

lemma epoch_planting: "handle_action 1793750400 demo_start = Inr epoch_planted"
  by (simp add: handle_action_wf demo_start_fields in_field_origin corn_tile_fields
      epoch_planted_def epoch_tile_def new_Tile_def)

text \<open>
  The float operations met when the corn planted at 1793750400 is fertilized
  \<open>60 + 2 ** -22\<close> seconds later. The numbers \<open>60 + 2 ** -22\<close>, \<open>180 - 2 ** -22\<close>,
  \<open>90 - 2 ** -23\<close>, \<open>150 + 2 ** -22\<close> and \<open>90 - 2 ** -22\<close> are doubles. The new planting
  time \<open>1793750310 + 2 ** -23\<close> is not: doubles of this size are \<open>2 ** -22\<close> apart, and
  it is rounded to the even neighbour 1793750310.
\<close>

lemma epoch_rounding:
  "fl (251658241 / 4194304) = 251658241 / 4194304"
  "fl (754974719 / 4194304) = 754974719 / 4194304"
  "fl (754974719 / 8388608) = 754974719 / 8388608"
  "fl (15047068200468481 / 8388608) = 1793750310"
  "fl (629145601 / 4194304) = 629145601 / 4194304"
  "fl (377487359 / 4194304) = 377487359 / 4194304"
proof -
  show "fl (251658241 / 4194304) = 251658241 / 4194304"
    by (rule fl_exactI [where k = 5 and m = "251658241 * 2 ^ 25"]) simp_all
  show "fl (754974719 / 4194304) = 754974719 / 4194304"
    by (rule fl_exactI [where k = 7 and m = "754974719 * 2 ^ 23"]) simp_all
  show "fl (754974719 / 8388608) = 754974719 / 8388608"
    by (rule fl_exactI [where k = 6 and m = "754974719 * 2 ^ 23"]) simp_all
  show "fl (629145601 / 4194304) = 629145601 / 4194304"
    by (rule fl_exactI [where k = 7 and m = "629145601 * 2 ^ 23"]) simp_all
  show "fl (377487359 / 4194304) = 377487359 / 4194304"
    by (rule fl_exactI [where k = 6 and m = "377487359 * 2 ^ 24"]) simp_all
  have "fl (15047068200468481 / 8388608) =
      of_int (if even (7523534100234240 :: int) then 7523534100234240
              else 7523534100234240 + 1) / 2 ^ (52 - 30)"
    by (rule fl_tieI) simp_all
  then show "fl (15047068200468481 / 8388608) = 1793750310" by simp
qed

lemma epoch_times:
  "fl 1793750400 = 1793750400"
  "fl (7523534729379841 / 4194304) = 7523534729379841 / 4194304"
proof -
  show "fl 1793750400 = 1793750400" by (simp add: fl_numeral)
  show "fl (7523534729379841 / 4194304) = 7523534729379841 / 4194304"
    by (rule fl_exactI [where k = 30 and m = 7523534729379841]) simp_all
qed

text \<open>
  Claim C2, as stated, fails: the new remaining growth time is not always exactly
  \<open>r / 2\<close>, since \<open>tile.planted_at -= remaining / 2\<close> rounds the new planting time to a
  double. Corn (grow time 240) is planted at the Unix time 1793750400 and fertilized at
  \<open>1793750460 + 2 ** -22\<close>; both times are doubles. The remaining time before is
  \<open>r = 180 - 2 ** -22\<close>. The planting time becomes 1793750310 and the remaining time
  \<open>90 - 2 ** -22\<close>, which is not \<open>r / 2 = 90 - 2 ** -23\<close>.
\<close>

theorem fertilize_rounds_remaining:
  "handle_action 1793750400 demo_start = Inr epoch_planted
   \<and> is_double 1793750400 \<and> is_double (1793750460 + 1 / 2 ^ 22)
   \<and> crop (cell epoch_planted 0 0) = Some Corn
   \<and> \<not> fertilized (cell epoch_planted 0 0)
   \<and> 5 \<le> coins epoch_planted
   \<and> remaining_time (1793750460 + 1 / 2 ^ 22) (cell epoch_planted 0 0) = 180 - 1 / 2 ^ 22
   \<and> \<not> isl (handle_fertilizer (1793750460 + 1 / 2 ^ 22) epoch_planted)
   \<and> planted_at (cell (projr (handle_fertilizer (1793750460 + 1 / 2 ^ 22) epoch_planted)) 0 0)
       = 1793750310
   \<and> remaining_time (1793750460 + 1 / 2 ^ 22)
         (cell (projr (handle_fertilizer (1793750460 + 1 / 2 ^ 22) epoch_planted)) 0 0)
       = 90 - 1 / 2 ^ 22
   \<and> remaining_time (1793750460 + 1 / 2 ^ 22)
         (cell (projr (handle_fertilizer (1793750460 + 1 / 2 ^ 22) epoch_planted)) 0 0)
       \<noteq> remaining_time (1793750460 + 1 / 2 ^ 22) (cell epoch_planted 0 0) / 2"
proof -
  define now :: rat where "now = 1793750460 + 1 / 2 ^ 22"
  let ?F = "epoch_tile\<lparr>planted_at := 1793750310, fertilized := True, sparkle_t := now\<rparr>"
  have d: "is_double 1793750400" "is_double now"
    by (simp_all add: is_double_def now_def epoch_times)
  have r: "remaining_time now epoch_tile = 180 - 1 / 2 ^ 22"
    by (simp add: remaining_time_def epoch_fields corn_tile_fields now_def epoch_rounding)
  have f: "handle_fertilizer now epoch_planted =
      Inr (put_cell (epoch_planted\<lparr>coins := 15\<rparr>) 0 0 ?F)"
    by (simp add: handle_fertilizer_wf epoch_fields in_field_origin r epoch_rounding)
  have c: "cell (put_cell (epoch_planted\<lparr>coins := 15\<rparr>) 0 0 ?F) 0 0 = ?F"
    by (simp add: cell_put_cell epoch_fields in_field_origin)
  have r': "remaining_time now ?F = 90 - 1 / 2 ^ 22"
    by (simp add: remaining_time_def epoch_fields corn_tile_fields now_def epoch_rounding)
  from d r f c r' epoch_planting show ?thesis
    unfolding now_def [symmetric] by (simp add: epoch_fields)
qed

text \<open>
  Claim C2, amended. On an occupied, not yet fertilized tile planted at \<open>p\<close>, with
  remaining growth time \<open>r > 0\<close> and at least 5 coins, \<open>handle_fertilizer\<close> takes exactly
  5 coins, sets the flag \<open>fertilized\<close> and moves the planting time to the double nearest
  to \<open>p - r / 2\<close>; any later call of \<open>handle_fertilizer\<close> on this planting returns the
  state unchanged. The remaining growth time afterwards is exactly \<open>r / 2\<close> whenever no
  float operation involved rounds: the elapsed time \<open>now - p\<close>, the difference of the
  grow time and the elapsed time, \<open>r / 2\<close>, the new planting time \<open>p - r / 2\<close> and the
  new elapsed time \<open>now - (p - r / 2)\<close> are doubles.
\<close>

theorem fertilize_halves_remaining:
  assumes "wf_grid g" and "in_field (player_x g) (player_y g)"
    and "crop (cell g (player_x g) (player_y g)) = Some c"
    and "\<not> fertilized (cell g (player_x g) (player_y g))"
    and "planted_at (cell g (player_x g) (player_y g)) = p"
    and "remaining_time now (cell g (player_x g) (player_y g)) = r"
    and "0 < r" and "5 \<le> coins g"
  shows "\<exists>g1. handle_fertilizer now g = Inr g1
           \<and> coins g1 = coins g - 5
           \<and> fertilized (cell g1 (player_x g) (player_y g))
           \<and> planted_at (cell g1 (player_x g) (player_y g)) = fl (p - fl (r / 2))
           \<and> (is_double (now - p) \<and> is_double (grow_time c - (now - p))
                \<and> is_double (r / 2) \<and> is_double (p - r / 2)
                \<and> is_double (now - (p - r / 2)) \<longrightarrow>
              remaining_time now (cell g1 (player_x g) (player_y g)) = r / 2)
           \<and> (\<forall>now'. handle_fertilizer now' g1 = Inr g1)"
proof -
  let ?i = "player_x g" and ?j = "player_y g"
  let ?tile = "cell g ?i ?j"
  let ?tile1 = "?tile\<lparr>planted_at := fl (p - fl (r / 2)), fertilized := True, sparkle_t := now\<rparr>"
  let ?g1 = "put_cell (g\<lparr>coins := coins g - 5\<rparr>) ?i ?j ?tile1"
  have step: "handle_fertilizer now g = Inr ?g1"
    using assms by (simp add: handle_fertilizer_wf Let_def)
  have wf1: "wf_grid ?g1" using assms(1) by (simp add: wf_grid_put_cell)
  have c1: "cell ?g1 ?i ?j = ?tile1"
    using assms(1,2) by (simp add: cell_put_cell)
  have half: "remaining_time now ?tile1 = r / 2"
    if ex: "fl (now - p) = now - p" "fl (grow_time c - (now - p)) = grow_time c - (now - p)"
      "fl (r / 2) = r / 2" "fl (p - r / 2) = p - r / 2"
      "fl (now - (p - r / 2)) = now - (p - r / 2)"
  proof -
    from assms(3,5,6) have "r = max (fl (grow_time c - fl (now - p))) 0"
      by (simp add: remaining_time_def)
    also have "\<dots> = max (grow_time c - (now - p)) 0"
      by (simp only: ex(1) ex(2))
    finally have "r = grow_time c - (now - p)"
      using assms(7) by (simp add: max_def split: if_splits)
    then have eq: "grow_time c - (now - (p - r / 2)) = r / 2" by (simp add: field_simps)
    from assms(3) have "remaining_time now ?tile1 =
        max (fl (grow_time c - fl (now - fl (p - fl (r / 2))))) 0"
      by (simp add: remaining_time_def)
    also have "\<dots> = max (fl (grow_time c - (now - (p - r / 2)))) 0"
      by (simp only: ex(3) ex(4) ex(5))
    also have "\<dots> = max (r / 2) 0"
      by (simp only: eq ex(3))
    also have "\<dots> = r / 2"
      using assms(7) by simp
    finally show ?thesis .
  qed
  have again: "handle_fertilizer now' ?g1 = Inr ?g1" for now'
    using wf1 assms(2) c1 by (simp add: handle_fertilizer_wf Let_def)
  from step c1 half again show ?thesis
    by (simp add: is_double_def)
qed

text \<open>
  Corn planted at time 0 and fertilized at time 120: 120 seconds remain, then 60; the
  times are whole numbers of seconds and nothing is rounded.
\<close>

theorem fertilize_halves_remaining_witness:
  "\<exists>g1. handle_fertilizer 120 corn_planted = Inr g1
      \<and> coins g1 = 15
      \<and> fertilized (cell g1 0 0)
      \<and> planted_at (cell g1 0 0) = - 60
      \<and> remaining_time 120 (cell g1 0 0) = 60
      \<and> (\<forall>now'. handle_fertilizer now' g1 = Inr g1)"
proof -
  have h: "wf_grid corn_planted"
    "in_field (player_x corn_planted) (player_y corn_planted)"
    "crop (cell corn_planted (player_x corn_planted) (player_y corn_planted)) = Some Corn"
    "\<not> fertilized (cell corn_planted (player_x corn_planted) (player_y corn_planted))"
    "planted_at (cell corn_planted (player_x corn_planted) (player_y corn_planted)) = 0"
    "remaining_time 120 (cell corn_planted (player_x corn_planted) (player_y corn_planted)) = 120"
    "(0::rat) < 120" "5 \<le> coins corn_planted"
    by (simp_all add: corn_planted_fields corn_tile_fields in_field_origin remaining_time_def
        fl_numeral)
  from fertilize_halves_remaining [OF h] show ?thesis
    by (simp add: corn_planted_fields corn_tile_fields is_double_def fl_numeral)
qed

text \<open>
  Claim C3. \<open>handle_action\<close> on a tile at stage 3 adds exactly the reward of the tile's
  crop to the coins, increments the harvest counter of that crop by exactly 1 and resets
  the tile to \<open>Tile()\<close>. On an empty tile the action plants instead (the selected crop,
  if its seed cost is affordable, and nothing is harvested); on an occupied tile whose
  stage is not 3 it returns the state unchanged.
\<close>

theorem action_harvests_ripe_cell:
  assumes "wf_grid g" and "in_field (player_x g) (player_y g)"
  shows "(crop (cell g (player_x g) (player_y g)) = Some c
            \<and> stage (cell g (player_x g) (player_y g)) = 3 \<and> harvest_log g c = Some n \<longrightarrow>
          (\<exists>g'. handle_action now g = Inr g'
              \<and> coins g' = coins g + reward c
              \<and> harvest_log g' = (harvest_log g)(c \<mapsto> n + 1)
              \<and> cell g' (player_x g) (player_y g) = new_Tile))
       \<and> (crop (cell g (player_x g) (player_y g)) = None \<longrightarrow>
          (\<exists>g'. handle_action now g = Inr g'
              \<and> harvest_log g' = harvest_log g
              \<and> (if seed_cost (selected g) \<le> coins g
                  then coins g' = coins g - seed_cost (selected g)
                     \<and> crop (cell g' (player_x g) (player_y g)) = Some (selected g)
                     \<and> planted_at (cell g' (player_x g) (player_y g)) = now
                     \<and> stage (cell g' (player_x g) (player_y g)) = 0
                  else g' = g)))
       \<and> (crop (cell g (player_x g) (player_y g)) = Some c
            \<and> stage (cell g (player_x g) (player_y g)) \<noteq> 3 \<longrightarrow>
          handle_action now g = Inr g)"
  using assms
  by (auto simp: handle_action_wf Let_def cell_put_cell wf_grid_put_cell)


text \<open>Harvesting the ripe corn, planting on the empty start grid, and an unripe tile.\<close>

theorem action_harvests_ripe_cell_witness:
  "(\<exists>g'. handle_action 240 corn_ripe = Inr g'
       \<and> coins g' = 32
       \<and> harvest_log g' = (harvest_log corn_ripe)(Corn \<mapsto> 1)
       \<and> cell g' 0 0 = new_Tile)
   \<and> (\<exists>g'. handle_action 0 demo_start = Inr g'
       \<and> harvest_log g' = harvest_log demo_start
       \<and> coins g' = 20 \<and> crop (cell g' 0 0) = Some Corn
       \<and> planted_at (cell g' 0 0) = 0 \<and> stage (cell g' 0 0) = 0)
   \<and> handle_action 100 corn_planted = Inr corn_planted"
proof -
  have r: "wf_grid corn_ripe" "in_field (player_x corn_ripe) (player_y corn_ripe)"
    by (simp_all add: corn_ripe_fields in_field_origin)
  have s: "wf_grid demo_start" "in_field (player_x demo_start) (player_y demo_start)"
    by (simp_all add: demo_start_fields in_field_origin)
  have p: "wf_grid corn_planted" "in_field (player_x corn_planted) (player_y corn_planted)"
    by (simp_all add: corn_planted_fields in_field_origin)
  from action_harvests_ripe_cell [OF r, of Corn 0 240]
  have 1: "\<exists>g'. handle_action 240 corn_ripe = Inr g'
       \<and> coins g' = 32
       \<and> harvest_log g' = (harvest_log corn_ripe)(Corn \<mapsto> 1)
       \<and> cell g' 0 0 = new_Tile"
    by (simp add: corn_ripe_fields corn_tile_fields)
  from action_harvests_ripe_cell [OF s, of Corn 0 0]
  have 2: "\<exists>g'. handle_action 0 demo_start = Inr g'
       \<and> harvest_log g' = harvest_log demo_start
       \<and> coins g' = 20 \<and> crop (cell g' 0 0) = Some Corn
       \<and> planted_at (cell g' 0 0) = 0 \<and> stage (cell g' 0 0) = 0"
    by (simp add: demo_start_fields corn_tile_fields)
  from action_harvests_ripe_cell [OF p, of Corn 0 100]
  have 3: "handle_action 100 corn_planted = Inr corn_planted"
    by (simp add: corn_planted_fields corn_tile_fields)
  from 1 2 3 show ?thesis by blast
qed

text \<open>
  Claim C4, amended. \<open>handle_action\<close> on an empty tile with coins of at least the seed
  cost of the selected crop takes exactly the seed cost and occupies the tile with that
  crop at stage 0, planted now, not fertilized; on an empty tile with fewer coins, and
  on an occupied tile whose stage is not 3, it returns the state unchanged.
\<close>

theorem action_plants_on_empty_cell:
  assumes "wf_grid g" and "in_field (player_x g) (player_y g)"
  shows "(crop (cell g (player_x g) (player_y g)) = None
            \<and> seed_cost (selected g) \<le> coins g \<longrightarrow>
          (\<exists>g'. handle_action now g = Inr g'
              \<and> coins g' = coins g - seed_cost (selected g)
              \<and> crop (cell g' (player_x g) (player_y g)) = Some (selected g)
              \<and> planted_at (cell g' (player_x g) (player_y g)) = now
              \<and> stage (cell g' (player_x g) (player_y g)) = 0
              \<and> \<not> fertilized (cell g' (player_x g) (player_y g))))
       \<and> (crop (cell g (player_x g) (player_y g)) = None
            \<and> coins g < seed_cost (selected g) \<longrightarrow>
          handle_action now g = Inr g)
       \<and> (crop (cell g (player_x g) (player_y g)) \<noteq> None
            \<and> stage (cell g (player_x g) (player_y g)) \<noteq> 3 \<longrightarrow>
          handle_action now g = Inr g)"
  using assms
  by (auto simp: handle_action_wf Let_def cell_put_cell wf_grid_put_cell)

text \<open>Planting with 25 coins, with 2 coins, and on the tile that holds unripe corn.\<close>

theorem action_plants_on_empty_cell_witness:
  "(\<exists>g'. handle_action 0 demo_start = Inr g'
       \<and> coins g' = 20
       \<and> crop (cell g' 0 0) = Some Corn
       \<and> planted_at (cell g' 0 0) = 0
       \<and> stage (cell g' 0 0) = 0
       \<and> \<not> fertilized (cell g' 0 0))
   \<and> handle_action 0 demo_poor = Inr demo_poor
   \<and> handle_action 100 corn_planted = Inr corn_planted"
proof -
  have s: "wf_grid demo_start" "in_field (player_x demo_start) (player_y demo_start)"
    by (simp_all add: demo_start_fields in_field_origin)
  have q: "wf_grid demo_poor" "in_field (player_x demo_poor) (player_y demo_poor)"
    by (simp_all add: demo_poor_fields in_field_origin)
  have p: "wf_grid corn_planted" "in_field (player_x corn_planted) (player_y corn_planted)"
    by (simp_all add: corn_planted_fields in_field_origin)
  from action_plants_on_empty_cell [OF s, of 0]
  have 1: "\<exists>g'. handle_action 0 demo_start = Inr g'
       \<and> coins g' = 20
       \<and> crop (cell g' 0 0) = Some Corn
       \<and> planted_at (cell g' 0 0) = 0
       \<and> stage (cell g' 0 0) = 0
       \<and> \<not> fertilized (cell g' 0 0)"
    by (simp add: demo_start_fields corn_tile_fields)
  from action_plants_on_empty_cell [OF q, of 0]
  have 2: "handle_action 0 demo_poor = Inr demo_poor"
    by (simp add: demo_poor_fields corn_tile_fields)
  from action_plants_on_empty_cell [OF p, of 100]
  have 3: "handle_action 100 corn_planted = Inr corn_planted"
    by (simp add: corn_planted_fields corn_tile_fields)
  from 1 2 3 show ?thesis by blast
qed

lemma handle_key_moves:
  "handle_key now K_w g = Inr (g\<lparr>player_y := (player_y g - 1) mod ROWS\<rparr>)"
  "handle_key now K_s g = Inr (g\<lparr>player_y := (player_y g + 1) mod ROWS\<rparr>)"
  "handle_key now K_a g = Inr (g\<lparr>player_x := (player_x g - 1) mod COLS\<rparr>)"
  "handle_key now K_d g = Inr (g\<lparr>player_x := (player_x g + 1) mod COLS\<rparr>)"
  "handle_key now K_ESCAPE g = Inr g"
  "handle_key now K_SPACE g = handle_action now g"
  "handle_key now K_f g = handle_fertilizer now g"
  "handle_key now (K_named s) g =
     (case CROP_BY_KEY s of Some c \<Rightarrow> Inr (g\<lparr>selected := c\<rparr>) | None \<Rightarrow> Inr g)"
  by (simp_all add: handle_key_def)

text \<open>
  Claim C10. Whatever key is handled (action, fertilizer, the four moves, a seed key,
  any other key), the rabbits and every tile other than the one under the cursor are
  unchanged, and so are the random generator and the clock. Every harvest counter is
  unchanged too, with one exception: the action key on a tile at stage 3 may change the
  counter of the crop on that tile. Only the tile under the cursor, that counter, the
  coins, the cursor and the selected crop can differ.
\<close>

theorem command_frame:
  assumes "wf_grid g" and "in_field (player_x g) (player_y g)"
    and "handle_key now k g = Inr g'"
  shows "rabbits g' = rabbits g
       \<and> (\<forall>i j. in_field i j \<and> (i, j) \<noteq> (player_x g, player_y g) \<longrightarrow>
             cell g' i j = cell g i j)
       \<and> (\<forall>c. \<not> (k = K_SPACE \<and> crop (cell g (player_x g) (player_y g)) = Some c
                    \<and> stage (cell g (player_x g) (player_y g)) = 3) \<longrightarrow>
             harvest_log g' c = harvest_log g c)
       \<and> rand_src g' = rand_src g \<and> rand_pos g' = rand_pos g
       \<and> clock_src g' = clock_src g \<and> clock_pos g' = clock_pos g
       \<and> wf_grid g'"
proof (cases k)
  case K_SPACE
  with assms show ?thesis
    by (auto simp: handle_key_moves handle_action_wf Let_def cell_put_cell wf_grid_put_cell
        split: option.splits if_splits)
next
  case K_f
  with assms show ?thesis
    by (auto simp: handle_key_moves handle_fertilizer_wf Let_def cell_put_cell wf_grid_put_cell
        split: option.splits if_splits)
next
  case (K_named s)
  with assms show ?thesis
    by (auto simp: handle_key_moves split: option.splits)
qed (use assms in \<open>auto simp: handle_key_moves\<close>)

text \<open>
  The action key on the ripe corn harvests it and leaves the rabbit, the other tiles and
  the counter of the beans alone. The fertilizer key on the unripe corn leaves every
  counter alone, that of the corn too.
\<close>

theorem command_frame_witness:
  "handle_key 240 K_SPACE corn_ripe = Inr corn_harvested
   \<and> rabbits corn_harvested = rabbits corn_ripe
   \<and> cell corn_harvested 3 4 = cell corn_ripe 3 4
   \<and> harvest_log corn_harvested Bean = harvest_log corn_ripe Bean
   \<and> rand_pos corn_harvested = rand_pos corn_ripe
   \<and> clock_pos corn_harvested = clock_pos corn_ripe
   \<and> (\<exists>g'. handle_key 120 K_f corn_planted = Inr g'
          \<and> coins g' = 15
          \<and> rabbits g' = rabbits corn_planted
          \<and> cell g' 3 4 = cell corn_planted 3 4
          \<and> harvest_log g' Corn = harvest_log corn_planted Corn
          \<and> harvest_log g' Bean = harvest_log corn_planted Bean)"
proof -
  have r: "wf_grid corn_ripe" "in_field (player_x corn_ripe) (player_y corn_ripe)"
    by (simp_all add: corn_ripe_fields in_field_origin)
  have k: "handle_key 240 K_SPACE corn_ripe = Inr corn_harvested"
    by (simp add: handle_key_moves handle_action_wf corn_ripe_fields in_field_origin
        corn_tile_fields corn_harvested_def)
  have f: "in_field 3 4 \<and> ((3, 4) :: int \<times> int) \<noteq> (0, 0)" "Some Corn \<noteq> Some Bean"
    by (simp_all add: in_field_def COLS_def ROWS_def crops_distinct)
  from command_frame [OF r k] f
  have 1: "rabbits corn_harvested = rabbits corn_ripe
     \<and> cell corn_harvested 3 4 = cell corn_ripe 3 4
     \<and> harvest_log corn_harvested Bean = harvest_log corn_ripe Bean
     \<and> rand_pos corn_harvested = rand_pos corn_ripe
     \<and> clock_pos corn_harvested = clock_pos corn_ripe"
    by (simp add: corn_ripe_fields corn_tile_fields)
  have p: "wf_grid corn_planted" "in_field (player_x corn_planted) (player_y corn_planted)"
    by (simp_all add: corn_planted_fields in_field_origin)
  obtain g' where kf: "handle_key 120 K_f corn_planted = Inr g'" and cf: "coins g' = 15"
    by (simp add: handle_key_moves handle_fertilizer_wf corn_planted_fields in_field_origin
        corn_tile_fields)
  from command_frame [OF p kf] f
  have "rabbits g' = rabbits corn_planted
     \<and> cell g' 3 4 = cell corn_planted 3 4
     \<and> harvest_log g' Corn = harvest_log corn_planted Corn
     \<and> harvest_log g' Bean = harvest_log corn_planted Bean"
    by (simp add: corn_planted_fields)
  with kf cf have 2: "\<exists>g'. handle_key 120 K_f corn_planted = Inr g'
          \<and> coins g' = 15
          \<and> rabbits g' = rabbits corn_planted
          \<and> cell g' 3 4 = cell corn_planted 3 4
          \<and> harvest_log g' Corn = harvest_log corn_planted Corn
          \<and> harvest_log g' Bean = harvest_log corn_planted Bean"
    by blast
  from k 1 2 show ?thesis by simp
qed

lemma spawn_draw_shift:
  "spawn_draw (g\<lparr>rand_pos := rand_pos g + 2\<rparr>) k = spawn_draw g (Suc k)"
  by (simp add: spawn_draw_def)

lemma spawn_try_cases:
  "spawn_try n b g = (r, g') \<Longrightarrow>
     (\<exists>k<n. (\<forall>m<k. spawn_draw g m = (player_x g, player_y g))
         \<and> spawn_draw g k \<noteq> (player_x g, player_y g)
         \<and> r = Some (spawn_draw g k)
         \<and> g' = g\<lparr>rand_pos := rand_pos g + 2 * (k + 1)\<rparr>)
   \<or> ((\<forall>m<n. spawn_draw g m = (player_x g, player_y g))
         \<and> r = (if n = 0 then b else Some (player_x g, player_y g))
         \<and> g' = g\<lparr>rand_pos := rand_pos g + 2 * n\<rparr>)"
proof (induction n arbitrary: b g)
  case 0
  then show ?case by simp
next
  case (Suc n)
  let ?g2 = "g\<lparr>rand_pos := rand_pos g + 2\<rparr>"
  let ?P = "(player_x g, player_y g)"
  have sh: "spawn_draw ?g2 m = spawn_draw g (Suc m)" for m
    by (simp add: spawn_draw_def)
  show ?case
  proof (cases "spawn_draw g 0 = ?P")
    case False
    with Suc.prems have "r = Some (spawn_draw g 0)" "g' = ?g2"
      by (auto simp: spawn_draw_def randrange_def Let_def)
    with False show ?thesis by auto
  next
    case True
    with Suc.prems have rec: "spawn_try n (Some ?P) ?g2 = (r, g')"
      by (auto simp: spawn_draw_def randrange_def Let_def)
    from Suc.IH [OF rec] show ?thesis
    proof (elim disjE exE conjE)
      fix k
      assume k: "k < n" "\<forall>m<k. spawn_draw ?g2 m = (player_x ?g2, player_y ?g2)"
        "spawn_draw ?g2 k \<noteq> (player_x ?g2, player_y ?g2)"
        "r = Some (spawn_draw ?g2 k)"
        "g' = ?g2\<lparr>rand_pos := rand_pos ?g2 + 2 * (k + 1)\<rparr>"
      from k(2) have "\<forall>m<k. spawn_draw g (Suc m) = ?P"
        unfolding sh by simp
      with True have "\<forall>m<Suc k. spawn_draw g m = ?P"
        by (simp add: less_Suc_eq_0_disj) blast
      with k show ?thesis
        unfolding sh by (intro disjI1 exI [of _ "Suc k"]) simp
    next
      assume a: "\<forall>m<n. spawn_draw ?g2 m = (player_x ?g2, player_y ?g2)"
        "r = (if n = 0 then Some ?P else Some (player_x ?g2, player_y ?g2))"
        "g' = ?g2\<lparr>rand_pos := rand_pos ?g2 + 2 * n\<rparr>"
      from a(1) have "\<forall>m<n. spawn_draw g (Suc m) = ?P"
        unfolding sh by simp
      with True have "\<forall>m<Suc n. spawn_draw g m = ?P"
        by (simp add: less_Suc_eq_0_disj) blast
      with a show ?thesis unfolding sh by (intro disjI2) simp
    qed
  qed
qed

lemma spawn_draw_in_field: "in_field (fst (spawn_draw g k)) (snd (spawn_draw g k))"
  by (simp add: spawn_draw_def in_field_def COLS_def ROWS_def)

lemma random_random_range:
  "0 \<le> fst (random_random g) \<and> fst (random_random g) < 1"
  by (simp add: random_random_def)

lemma spawn_rabbit_char:
  "\<exists>pos u n. spawn_rabbit g =
       Inr (g\<lparr>rabbits := rabbits g @
                [\<lparr>rabbit_x = fst pos, rabbit_y = snd pos,
                  next_move = clock_src g (clock_pos g) + u\<rparr>],
              rand_pos := rand_pos g + 2 * n + 1,
              clock_pos := clock_pos g + 1\<rparr>)
     \<and> 0 \<le> u \<and> u < RABBIT_MOVE_INT
     \<and> in_field (fst pos) (snd pos)
     \<and> 1 \<le> n \<and> n \<le> 30
     \<and> pos = spawn_draw g (n - 1)
     \<and> (\<forall>m<n - 1. spawn_draw g m = (player_x g, player_y g))
     \<and> (n < 30 \<longrightarrow> pos \<noteq> (player_x g, player_y g))
     \<and> u = of_nat (rand_src g (rand_pos g + 2 * n) mod 2 ^ 53) / 2 ^ 53 * RABBIT_MOVE_INT"
proof -
  obtain r g1 where st: "spawn_try 30 None g = (r, g1)" by (cases "spawn_try 30 None g")
  let ?P = "(player_x g, player_y g)"
  from spawn_try_cases [OF st]
  obtain n where n: "1 \<le> n" "n \<le> 30" "r = Some (spawn_draw g (n - 1))"
    "g1 = g\<lparr>rand_pos := rand_pos g + 2 * n\<rparr>"
    "\<forall>m<n - 1. spawn_draw g m = ?P" "n < 30 \<longrightarrow> spawn_draw g (n - 1) \<noteq> ?P"
  proof (elim disjE exE conjE)
    fix k assume "k < 30" "\<forall>m<k. spawn_draw g m = ?P" "spawn_draw g k \<noteq> ?P"
      "r = Some (spawn_draw g k)" "g1 = g\<lparr>rand_pos := rand_pos g + 2 * (k + 1)\<rparr>"
    then show thesis by (intro that [of "Suc k"]) auto
  next
    assume "\<forall>m<30. spawn_draw g m = ?P" "r = (if (30::nat) = 0 then None else Some ?P)"
      "g1 = g\<lparr>rand_pos := rand_pos g + 2 * 30\<rparr>"
    then show thesis by (intro that [of 30]) auto
  qed
  let ?u = "fst (random_random (g\<lparr>rand_pos := rand_pos g + 2 * n, clock_pos := clock_pos g + 1\<rparr>))
              * RABBIT_MOVE_INT"
  have u: "0 \<le> ?u" "?u < RABBIT_MOVE_INT"
    using random_random_range [of "g\<lparr>rand_pos := rand_pos g + 2 * n, clock_pos := clock_pos g + 1\<rparr>"]
    by (simp_all add: RABBIT_MOVE_INT_def)
  have "spawn_rabbit g =
       Inr (g\<lparr>rabbits := rabbits g @
                [\<lparr>rabbit_x = fst (spawn_draw g (n - 1)), rabbit_y = snd (spawn_draw g (n - 1)),
                  next_move = clock_src g (clock_pos g) + ?u\<rparr>],
              rand_pos := rand_pos g + 2 * n + 1,
              clock_pos := clock_pos g + 1\<rparr>)"
    using st n(3,4)
    by (simp add: spawn_rabbit_def time_time_def random_random_def split_beta Let_def)
  moreover have "?u = of_nat (rand_src g (rand_pos g + 2 * n) mod 2 ^ 53) / 2 ^ 53 * RABBIT_MOVE_INT"
    by (simp add: random_random_def)
  ultimately show ?thesis
    using u n spawn_draw_in_field [of g "n - 1"] by blast
qed



section \<open>Growth\<close>

lemma in_field_iff: "in_field i j \<longleftrightarrow> (i, j) \<in> field"
  by (auto simp: in_field_def field_def)

lemma finite_field: "finite field"
  by (simp add: field_def)

lemma crops_ok_cell:
  assumes "wf_grid g" "crops_ok g" "in_field i j" "crop (cell g i j) = Some c"
  shows "grow_time c \<noteq> 0"
proof -
  from assms have i: "nat i < length (grid g)"
    by (auto simp: wf_grid_def in_field_def)
  then have col: "grid g ! nat i \<in> set (grid g)" by simp
  with assms have "nat j < length (grid g ! nat i)"
    by (simp add: wf_grid_def in_field_def)
  then have "cell g i j \<in> set (grid g ! nat i)" by (simp add: cell_def)
  with col assms show ?thesis by (auto simp: crops_ok_def)
qed

lemma crops_ok_iff:
  assumes "wf_grid g"
  shows "crops_ok g \<longleftrightarrow>
    (\<forall>i j c. in_field i j \<and> crop (cell g i j) = Some c \<longrightarrow> grow_time c \<noteq> 0)"
proof
  assume "crops_ok g"
  with assms show "\<forall>i j c. in_field i j \<and> crop (cell g i j) = Some c \<longrightarrow> grow_time c \<noteq> 0"
    by (blast dest: crops_ok_cell)
next
  assume r: "\<forall>i j c. in_field i j \<and> crop (cell g i j) = Some c \<longrightarrow> grow_time c \<noteq> 0"
  show "crops_ok g"
    unfolding crops_ok_def
  proof (intro ballI allI impI)
    fix col t c assume col: "col \<in> set (grid g)" and t: "t \<in> set col" and c: "crop t = Some c"
    from col obtain a where a: "a < length (grid g)" "col = grid g ! a"
      by (auto simp: in_set_conv_nth)
    from t obtain b where b: "b < length col" "t = col ! b"
      by (auto simp: in_set_conv_nth)
    from assms col have "length col = nat ROWS" by (simp add: wf_grid_def)
    with a b assms have "in_field (int a) (int b)" "cell g (int a) (int b) = t"
      by (auto simp: in_field_def cell_def wf_grid_def)
    with r c show "grow_time c \<noteq> 0" by blast
  qed
qed

lemma crop_grown [simp]: "crop (grown now t) = crop t"
  by (simp add: grown_def split: option.splits)

lemma grew_crops_ok:
  assumes "grew now S g g'" "wf_grid g" "crops_ok g"
  shows "crops_ok g'"
proof -
  from assms(1) have wf': "wf_grid g'" by (simp add: grew_def)
  show ?thesis
    unfolding crops_ok_iff [OF wf']
  proof (intro allI impI, elim conjE)
    fix i j c assume ij: "in_field i j" and c: "crop (cell g' i j) = Some c"
    from assms(1) ij have "crop (cell g' i j) = crop (cell g i j)"
      by (simp add: grew_def)
    with c assms ij show "grow_time c \<noteq> 0" by (auto dest: crops_ok_cell)
  qed
qed

lemma grew_refl: "wf_grid g \<Longrightarrow> grew now {} g g"
  by (simp add: grew_def)

lemma grew_trans:
  assumes "grew now S g g1" "grew now T g1 g2" "S \<inter> T = {}" "S \<subseteq> field" "T \<subseteq> field"
  shows "grew now (S \<union> T) g g2"
proof -
  have fin: "finite S" "finite T"
    using assms(4,5) finite_field by (auto intro: finite_subset)
  have same: "cell g1 (fst p) (snd p) = cell g (fst p) (snd p)" if "p \<in> T" for p
  proof -
    from that assms(3,5) have "p \<notin> S" "in_field (fst p) (snd p)"
      by (auto simp: in_field_iff)
    with assms(1) show ?thesis by (simp add: grew_def)
  qed
  let ?R = "\<lambda>h p. ripens now (cell h (fst p) (snd p))"
  have "{p \<in> T. ?R g1 p} = {p \<in> T. ?R g p}"
    using same by auto
  moreover have "{p \<in> S \<union> T. ?R g p} = {p \<in> S. ?R g p} \<union> {p \<in> T. ?R g p}"
    by auto
  moreover have "card ({p \<in> S. ?R g p} \<union> {p \<in> T. ?R g p})
      = card {p \<in> S. ?R g p} + card {p \<in> T. ?R g p}"
    using fin assms(3) by (intro card_Un_disjoint) auto
  ultimately have cnt: "length (rabbits g2) =
      length (rabbits g) + card {p \<in> S \<union> T. ?R g p}"
    using assms(1,2) by (simp add: grew_def)
  have cells: "cell g2 i j = (if (i, j) \<in> S \<union> T then grown now (cell g i j) else cell g i j)"
    if "in_field i j" for i j
  proof -
    from that assms(2) have c2: "cell g2 i j =
        (if (i, j) \<in> T then grown now (cell g1 i j) else cell g1 i j)"
      by (simp add: grew_def)
    from that assms(1) have c1: "cell g1 i j =
        (if (i, j) \<in> S then grown now (cell g i j) else cell g i j)"
      by (simp add: grew_def)
    from c1 c2 assms(3) show ?thesis by auto
  qed
  have len: "length (rabbits g) \<le> length (rabbits g1)"
    using assms(1) by (simp add: grew_def)
  have "take (length (rabbits g)) (rabbits g2)
      = take (length (rabbits g)) (take (length (rabbits g1)) (rabbits g2))"
    using len by (simp add: min_def)
  also have "\<dots> = rabbits g"
    using assms(1,2) by (simp add: grew_def)
  finally have tk: "take (length (rabbits g)) (rabbits g2) = rabbits g" .
  from assms(1,2) cnt cells tk show ?thesis
    by (simp add: grew_def)
qed

lemma spawn_rabbit_result:
  "\<exists>r n. spawn_rabbit g =
       Inr (g\<lparr>rabbits := rabbits g @ [r], rand_pos := rand_pos g + n,
              clock_pos := clock_pos g + 1\<rparr>)
     \<and> in_field (rabbit_x r) (rabbit_y r)"
proof -
  from spawn_rabbit_char [of g] obtain pos u n where
    "spawn_rabbit g =
       Inr (g\<lparr>rabbits := rabbits g @
                [\<lparr>rabbit_x = fst pos, rabbit_y = snd pos,
                  next_move = clock_src g (clock_pos g) + u\<rparr>],
              rand_pos := rand_pos g + 2 * n + 1,
              clock_pos := clock_pos g + 1\<rparr>)"
    and f: "in_field (fst pos) (snd pos)"
    by (elim exE conjE)
  then have "spawn_rabbit g =
       Inr (g\<lparr>rabbits := rabbits g @
                [\<lparr>rabbit_x = fst pos, rabbit_y = snd pos,
                  next_move = clock_src g (clock_pos g) + u\<rparr>],
              rand_pos := rand_pos g + (2 * n + 1),
              clock_pos := clock_pos g + 1\<rparr>)"
    by (simp only: add.assoc)
  moreover have "in_field
      (rabbit_x \<lparr>rabbit_x = fst pos, rabbit_y = snd pos,
                 next_move = clock_src g (clock_pos g) + u\<rparr>)
      (rabbit_y \<lparr>rabbit_x = fst pos, rabbit_y = snd pos,
                 next_move = clock_src g (clock_pos g) + u\<rparr>)"
    using f by simp
  ultimately show ?thesis by (intro exI conjI)
qed

lemma growth_body_grew:
  assumes "wf_grid g" "crops_ok g" "in_field gx gy"
  shows "\<exists>g'. growth_body now gx gy g = Inr g' \<and> grew now {(gx, gy)} g g'"
proof -
  let ?t = "cell g gx gy"
  have sing: "{p \<in> {(gx, gy)}. ripens now (cell g (fst p) (snd p))}
      = (if ripens now ?t then {(gx, gy)} else {})"
    by auto
  show ?thesis
  proof (cases "crop ?t")
    case None
    then have "growth_body now gx gy g = Inr g"
      using assms by (simp add: growth_body_def get_tile_wf)
    moreover have "grew now {(gx, gy)} g g"
      using None assms(1) sing by (simp add: grew_def grown_def ripens_def)
    ultimately show ?thesis by blast
  next
    case (Some tc)
    with assms have nz: "grow_time tc \<noteq> 0" by (auto dest: crops_ok_cell)
    define ns where "ns = min (py_int (((now - planted_at ?t) / grow_time tc) * 4)) 3"
    have gr: "grown now ?t = (if stage ?t = 3 then ?t else ?t\<lparr>stage := ns\<rparr>)"
      unfolding ns_def grown_def using Some by simp
    have body: "growth_body now gx gy g =
       (if stage ?t = 3 then Inr g
        else if ns \<noteq> stage ?t then
          (case (if ns = 3 then spawn_rabbit g else Inr g) of
             Inl e \<Rightarrow> Inl e
           | Inr g1 \<Rightarrow> set_tile g1 gx gy (?t\<lparr>stage := ns\<rparr>))
        else Inr g)"
      unfolding ns_def growth_body_def Let_def using assms Some nz
      by (simp add: get_tile_wf)
    consider (idle) "stage ?t = 3 \<or> ns = stage ?t"
      | (ripen) "stage ?t \<noteq> 3" "ns = 3"
      | (adv) "stage ?t \<noteq> 3" "ns \<noteq> stage ?t" "ns \<noteq> 3"
      by blast
    then show ?thesis
    proof cases
      case idle
      then have "growth_body now gx gy g = Inr g"
        by (auto simp: body)
      moreover have "grown now ?t = ?t"
        using idle by (auto simp: gr)
      then have "grew now {(gx, gy)} g g"
        using assms(1) sing by (auto simp: grew_def ripens_def)
      ultimately show ?thesis by blast
    next
      case adv
      let ?g' = "put_cell g gx gy (?t\<lparr>stage := ns\<rparr>)"
      have "growth_body now gx gy g = Inr ?g'"
        using assms adv by (simp add: body set_tile_wf)
      moreover have "grown now ?t = ?t\<lparr>stage := ns\<rparr>" "\<not> ripens now ?t"
        using adv by (simp_all add: gr ripens_def)
      then have "grew now {(gx, gy)} g ?g'"
        using assms sing
        by (simp add: grew_def wf_grid_put_cell cell_put_cell rabbits_ok_def)
      ultimately show ?thesis by blast
    next
      case ripen
      obtain r n where sp: "spawn_rabbit g =
          Inr (g\<lparr>rabbits := rabbits g @ [r], rand_pos := rand_pos g + n,
                 clock_pos := clock_pos g + 1\<rparr>)"
        and rf: "in_field (rabbit_x r) (rabbit_y r)"
        using spawn_rabbit_result by blast
      let ?g1 = "g\<lparr>rabbits := rabbits g @ [r], rand_pos := rand_pos g + n,
                 clock_pos := clock_pos g + 1\<rparr>"
      let ?g' = "put_cell ?g1 gx gy (?t\<lparr>stage := ns\<rparr>)"
      have wf1: "wf_grid ?g1" using assms(1) by simp
      have "growth_body now gx gy g = Inr ?g'"
        using assms(3) ripen wf1 by (simp add: body sp set_tile_wf)
      moreover have "grown now ?t = ?t\<lparr>stage := ns\<rparr>" "ripens now ?t"
        using ripen Some by (simp_all add: gr ripens_def)
      then have "grew now {(gx, gy)} g ?g'"
        using assms sing wf1 rf
        by (simp add: grew_def wf_grid_put_cell cell_put_cell rabbits_ok_def)
      ultimately show ?thesis by blast
    qed
  qed
qed

lemma for_each_grew:
  assumes step: "\<And>a s. a \<in> set as \<Longrightarrow> wf_grid s \<Longrightarrow> crops_ok s \<Longrightarrow>
              \<exists>s'. f a s = Inr s' \<and> grew now (K a) s s'"
    and sub: "\<And>a. a \<in> set as \<Longrightarrow> K a \<subseteq> field"
    and disj: "\<And>a b. a \<in> set as \<Longrightarrow> b \<in> set as \<Longrightarrow> a \<noteq> b \<Longrightarrow> K a \<inter> K b = {}"
    and dist: "distinct as" and wf: "wf_grid g" and ok: "crops_ok g"
  shows "\<exists>g'. for_each as f g = Inr g' \<and> grew now (\<Union>a \<in> set as. K a) g g'"
  using assms
proof (induction as arbitrary: g)
  case Nil
  then show ?case by (simp add: grew_refl)
next
  case (Cons a as)
  have "\<exists>s'. f a g = Inr s' \<and> grew now (K a) g s'"
    by (rule Cons.prems(1)) (simp_all add: Cons.prems)
  then obtain g1 where g1: "f a g = Inr g1" "grew now (K a) g g1" by blast
  have wf1: "wf_grid g1" using g1(2) by (simp add: grew_def)
  have ok1: "crops_ok g1" using g1(2) Cons.prems(5,6) by (rule grew_crops_ok)
  have "\<exists>g'. for_each as f g1 = Inr g' \<and> grew now (\<Union>a \<in> set as. K a) g1 g'"
  proof (rule Cons.IH)
    fix b s assume "b \<in> set as" "wf_grid s" "crops_ok s"
    then show "\<exists>s'. f b s = Inr s' \<and> grew now (K b) s s'"
      by (intro Cons.prems(1)) simp_all
  next
    fix b assume "b \<in> set as"
    then show "K b \<subseteq> field" by (intro Cons.prems(2)) simp
  next
    fix b c assume "b \<in> set as" "c \<in> set as" "b \<noteq> c"
    then show "K b \<inter> K c = {}" by (intro Cons.prems(3)) simp_all
  next
    show "distinct as" using Cons.prems(4) by simp
  qed (rule wf1, rule ok1)
  then obtain g' where g': "for_each as f g1 = Inr g'" "grew now (\<Union>a \<in> set as. K a) g1 g'"
    by blast
  have "K a \<inter> K b = {}" if "b \<in> set as" for b
  proof (rule Cons.prems(3))
    show "a \<noteq> b" using that Cons.prems(4) by auto
  qed (use that in simp_all)
  then have d: "K a \<inter> (\<Union>b \<in> set as. K b) = {}" by blast
  have s1: "K a \<subseteq> field" by (rule Cons.prems(2)) simp
  have "K b \<subseteq> field" if "b \<in> set as" for b
    using that by (intro Cons.prems(2)) simp
  then have s2: "(\<Union>b \<in> set as. K b) \<subseteq> field" by blast
  have "grew now (K a \<union> (\<Union>b \<in> set as. K b)) g g'"
    using g1(2) g'(2) d s1 s2 by (rule grew_trans)
  with g1(1) g'(1) show ?case by simp
qed

lemma set_py_range: "set (py_range n) = {0..<n}"
proof -
  have "int ` {0..<nat n} = {0..<n}"
    by (cases "0 \<le> n") (simp_all add: image_int_atLeastLessThan)
  then show ?thesis by (simp add: py_range_def)
qed

lemma distinct_py_range: "distinct (py_range n)"
  by (simp add: py_range_def distinct_map inj_on_def)

lemma growth_column_grew:
  assumes "gx \<in> set (py_range COLS)" "wf_grid s" "crops_ok s"
  shows "\<exists>s'. for_each (py_range ROWS) (\<lambda>gy. growth_body now gx gy) s = Inr s'
            \<and> grew now ({gx} \<times> {0..<ROWS}) s s'"
proof -
  have "\<exists>s'. for_each (py_range ROWS) (\<lambda>gy. growth_body now gx gy) s = Inr s'
            \<and> grew now (\<Union>gy \<in> set (py_range ROWS). {(gx, gy)}) s s'"
  proof (rule for_each_grew)
    fix gy s0 assume a: "gy \<in> set (py_range ROWS)" "wf_grid s0" "crops_ok s0"
    with assms(1) have "in_field gx gy" by (simp add: set_py_range in_field_def)
    with a show "\<exists>s'. growth_body now gx gy s0 = Inr s' \<and> grew now {(gx, gy)} s0 s'"
      by (intro growth_body_grew)
  next
    fix gy assume "gy \<in> set (py_range ROWS)"
    with assms(1) show "{(gx, gy)} \<subseteq> field"
      by (simp add: set_py_range field_def)
  next
    fix a b :: int assume "a \<noteq> b"
    then show "{(gx, a)} \<inter> {(gx, b)} = {}" by simp
  next
    show "distinct (py_range ROWS)" by (rule distinct_py_range)
  qed (rule assms(2), rule assms(3))
  moreover have "(\<Union>gy \<in> set (py_range ROWS). {(gx, gy)}) = {gx} \<times> {0..<ROWS}"
    by (auto simp: set_py_range)
  ultimately show ?thesis by simp
qed

lemma update_growth_grew:
  assumes "wf_grid g" "crops_ok g"
  shows "\<exists>g'. update_growth now g = Inr g' \<and> grew now field g g'"
proof -
  let ?inner = "\<lambda>gx. for_each (py_range ROWS) (\<lambda>gy. growth_body now gx gy)"
  have "\<exists>g'. for_each (py_range COLS) ?inner g = Inr g'
      \<and> grew now (\<Union>gx \<in> set (py_range COLS). {gx} \<times> {0..<ROWS}) g g'"
  proof (rule for_each_grew)
    fix gx s assume "gx \<in> set (py_range COLS)" "wf_grid s" "crops_ok s"
    then show "\<exists>s'. ?inner gx s = Inr s' \<and> grew now ({gx} \<times> {0..<ROWS}) s s'"
      by (rule growth_column_grew)
  next
    fix gx assume "gx \<in> set (py_range COLS)"
    then show "{gx} \<times> {0..<ROWS} \<subseteq> field"
      by (auto simp: set_py_range field_def)
  next
    fix a b :: int assume "a \<noteq> b"
    then show "{a} \<times> {0..<ROWS} \<inter> {b} \<times> {0..<ROWS} = {}" by auto
  next
    show "distinct (py_range COLS)" by (rule distinct_py_range)
  qed (rule assms(1), rule assms(2))
  moreover have "(\<Union>gx \<in> set (py_range COLS). {gx} \<times> {0..<ROWS}) = field"
    by (auto simp: set_py_range field_def)
  ultimately show ?thesis by (simp add: update_growth_def)
qed

text \<open>What one growth update does to the tile at a position of the grid.\<close>

lemma update_growth_cell:
  assumes "wf_grid g" "crops_ok g"
  shows "\<exists>g'. update_growth now g = Inr g' \<and> wf_grid g' \<and> crops_ok g'
     \<and> (\<forall>i j. in_field i j \<longrightarrow> cell g' i j = grown now (cell g i j))
     \<and> coins g' = coins g \<and> harvest_log g' = harvest_log g
     \<and> player_x g' = player_x g \<and> player_y g' = player_y g \<and> selected g' = selected g
     \<and> length (rabbits g') = length (rabbits g)
          + card {p \<in> field. ripens now (cell g (fst p) (snd p))}
     \<and> (rabbits_ok g \<longrightarrow> rabbits_ok g')"
proof -
  from update_growth_grew [OF assms] obtain g' where
    g': "update_growth now g = Inr g'" "grew now field g g'" by blast
  from g'(2) assms have "crops_ok g'" by (rule grew_crops_ok)
  moreover have "cell g' i j = grown now (cell g i j)" if "in_field i j" for i j
    using g'(2) that by (simp add: grew_def in_field_iff)
  ultimately show ?thesis using g' by (simp add: grew_def)
qed

lemma py_int_nonneg: "0 \<le> q \<Longrightarrow> py_int q = \<lfloor>q\<rfloor>"
  by (simp add: py_int_def)

lemma grown_stage:
  assumes "crop t = Some c" "stage t \<noteq> 3" "0 < grow_time c" "planted_at t \<le> now"
  shows "grown now t = t\<lparr>stage := min \<lfloor>(now - planted_at t) / grow_time c * 4\<rfloor> 3\<rparr>"
proof -
  have "0 \<le> (now - planted_at t) / grow_time c * 4"
    using assms(3,4) by simp
  then have "py_int ((now - planted_at t) / grow_time c * 4)
      = \<lfloor>(now - planted_at t) / grow_time c * 4\<rfloor>"
    by (rule py_int_nonneg)
  then show ?thesis using assms(1,2) by (simp add: grown_def)
qed

lemma grown_ripe: "stage t = 3 \<Longrightarrow> grown now t = t"
  by (simp add: grown_def split: option.splits)

lemma stage_formula_mono:
  fixes g :: rat
  assumes "0 < g" "p \<le> t1" "t1 \<le> t2"
  shows "min \<lfloor>(t1 - p) / g * 4\<rfloor> (3::int) \<le> min \<lfloor>(t2 - p) / g * 4\<rfloor> 3"
proof -
  have "(t1 - p) / g \<le> (t2 - p) / g"
    using assms by (intro divide_right_mono) simp_all
  then have "(t1 - p) / g * 4 \<le> (t2 - p) / g * 4"
    by (rule mult_right_mono) simp
  then have "\<lfloor>(t1 - p) / g * 4\<rfloor> \<le> \<lfloor>(t2 - p) / g * 4\<rfloor>" by (rule floor_mono)
  then show ?thesis by simp
qed

text \<open>
  Claim C1. Take an occupied tile below stage 3 whose crop has a positive grow time, and
  two growth updates at times \<open>t1 \<le> t2\<close>, none before the planting. After each update
  the stage of the tile is \<open>min(floor(t / grow_time * 4), 3)\<close> for the elapsed time \<open>t\<close>;
  the stage after the second update is not below the stage after the first and never above
  3; and once the tile is at stage 3 the next update leaves the tile as it is.
\<close>

theorem growth_stage_formula:
  assumes "wf_grid g" and "crops_ok g" and "in_field i j"
    and "crop (cell g i j) = Some c" and "0 < grow_time c"
    and "stage (cell g i j) \<noteq> 3"
    and "planted_at (cell g i j) \<le> t1" and "t1 \<le> t2"
  shows "\<exists>g1 g2. update_growth t1 g = Inr g1 \<and> update_growth t2 g1 = Inr g2
     \<and> stage (cell g1 i j) = min \<lfloor>(t1 - planted_at (cell g i j)) / grow_time c * 4\<rfloor> 3
     \<and> stage (cell g2 i j) = min \<lfloor>(t2 - planted_at (cell g i j)) / grow_time c * 4\<rfloor> 3
     \<and> stage (cell g1 i j) \<le> stage (cell g2 i j)
     \<and> stage (cell g2 i j) \<le> 3
     \<and> (stage (cell g1 i j) = 3 \<longrightarrow> cell g2 i j = cell g1 i j)"
proof -
  let ?t = "cell g i j"
  let ?f = "\<lambda>t. min \<lfloor>(t - planted_at ?t) / grow_time c * 4\<rfloor> (3::int)"
  from update_growth_cell [OF assms(1,2), of t1] obtain g1 where
    g1: "update_growth t1 g = Inr g1" "wf_grid g1" "crops_ok g1"
      "\<forall>i j. in_field i j \<longrightarrow> cell g1 i j = grown t1 (cell g i j)"
    by blast
  from update_growth_cell [OF g1(2,3), of t2] obtain g2 where
    g2: "update_growth t2 g1 = Inr g2"
      "\<forall>i j. in_field i j \<longrightarrow> cell g2 i j = grown t2 (cell g1 i j)"
    by blast
  have c1: "cell g1 i j = ?t\<lparr>stage := ?f t1\<rparr>"
    using g1(4) assms(3,4,5,6,7) by (simp add: grown_stage)
  have mono: "?f t1 \<le> ?f t2"
    using assms(5,7,8) by (rule stage_formula_mono)
  have c2: "cell g2 i j = ?t\<lparr>stage := ?f t2\<rparr>"
  proof (cases "?f t1 = 3")
    case True
    with mono have "?f t2 = 3" by simp
    moreover have "cell g2 i j = cell g1 i j"
      using g2(2) assms(3) c1 True by (simp add: grown_ripe)
    ultimately show ?thesis using c1 True by simp
  next
    case False
    have "cell g2 i j = grown t2 (cell g1 i j)" using g2(2) assms(3) by simp
    also have "\<dots> = (cell g1 i j)\<lparr>stage :=
        min \<lfloor>(t2 - planted_at (cell g1 i j)) / grow_time c * 4\<rfloor> 3\<rparr>"
    proof (rule grown_stage)
      show "planted_at (cell g1 i j) \<le> t2" using assms(7,8) c1 by simp
    qed (use c1 False assms(4,5) in simp_all)
    finally show ?thesis using c1 by simp
  qed
  have "cell g2 i j = cell g1 i j" if "stage (cell g1 i j) = 3"
    using g2(2) assms(3) that by (simp add: grown_ripe)
  with g1(1) g2(1) c1 c2 mono show ?thesis by simp
qed

lemma cell_corn_planted:
  "in_field i j \<Longrightarrow> cell corn_planted i j = (if i = 0 \<and> j = 0 then corn_tile else new_Tile)"
  by (simp add: corn_planted_def demo_start_def cell_put_cell wf_grid_init cell_init
      in_field_origin)

lemma crops_ok_single:
  assumes "wf_grid g"
    and "\<forall>i j. in_field i j \<longrightarrow> cell g i j = (if i = 0 \<and> j = 0 then T else new_Tile)"
    and "\<forall>c. crop T = Some c \<longrightarrow> grow_time c \<noteq> 0"
  shows "crops_ok g"
  unfolding crops_ok_iff [OF assms(1)]
proof (intro allI impI, elim conjE)
  fix i j c assume ij: "in_field i j" and c: "crop (cell g i j) = Some c"
  from assms(2) ij have "cell g i j = (if i = 0 \<and> j = 0 then T else new_Tile)" by simp
  with c have "crop T = Some c"
    by (cases "i = 0 \<and> j = 0") (simp_all add: new_Tile_def)
  with assms(3) show "grow_time c \<noteq> 0" by simp
qed

text \<open>Corn planted at time 0: stage 2 at time 120, stage 3 at time 180.\<close>

theorem growth_stage_formula_witness:
  "\<exists>g1 g2. update_growth 120 corn_planted = Inr g1 \<and> update_growth 180 g1 = Inr g2
     \<and> stage (cell g1 0 0) = 2 \<and> stage (cell g2 0 0) = 3"
proof -
  have ok: "crops_ok corn_planted"
    by (rule crops_ok_single [where T = corn_tile])
       (simp_all add: corn_planted_fields cell_corn_planted corn_tile_fields)
  have h: "wf_grid corn_planted" "in_field 0 0" "crop (cell corn_planted 0 0) = Some Corn"
    "0 < grow_time Corn" "stage (cell corn_planted 0 0) \<noteq> 3"
    "planted_at (cell corn_planted 0 0) \<le> 120" "(120::rat) \<le> 180"
    by (simp_all add: corn_planted_fields corn_tile_fields in_field_origin)
  from growth_stage_formula [OF h(1) ok h(2-)] show ?thesis
    by (simp add: corn_planted_fields corn_tile_fields) blast
qed

section \<open>The scenarios\<close>

lemma ripens_new_Tile: "\<not> ripens now new_Tile"
  by (simp add: ripens_def new_Tile_def)

lemma grown_new_Tile: "grown now new_Tile = new_Tile"
  by (simp add: grown_def new_Tile_def)

lemma origin_in_field: "(0, 0) \<in> field"
  by (simp add: field_def COLS_def ROWS_def)

text \<open>A growth update of a grid whose only crop is on the tile \<open>(0, 0)\<close>.\<close>

lemma update_growth_single:
  assumes wf: "wf_grid g"
    and cells: "\<forall>i j. in_field i j \<longrightarrow> cell g i j = (if i = 0 \<and> j = 0 then T else new_Tile)"
    and nz: "\<forall>c. crop T = Some c \<longrightarrow> grow_time c \<noteq> 0"
  shows "\<exists>g'. update_growth now g = Inr g' \<and> wf_grid g'
     \<and> (\<forall>i j. in_field i j \<longrightarrow>
           cell g' i j = (if i = 0 \<and> j = 0 then grown now T else new_Tile))
     \<and> coins g' = coins g \<and> harvest_log g' = harvest_log g
     \<and> player_x g' = player_x g \<and> player_y g' = player_y g \<and> selected g' = selected g
     \<and> length (rabbits g') = length (rabbits g) + (if ripens now T then 1 else 0)"
proof -
  have ok: "crops_ok g" using wf cells nz by (rule crops_ok_single)
  from update_growth_cell [OF wf ok, of now] obtain g' where
    g': "update_growth now g = Inr g'" "wf_grid g'"
      "\<forall>i j. in_field i j \<longrightarrow> cell g' i j = grown now (cell g i j)"
      "coins g' = coins g" "harvest_log g' = harvest_log g"
      "player_x g' = player_x g" "player_y g' = player_y g" "selected g' = selected g"
      "length (rabbits g') = length (rabbits g)
          + card {p \<in> field. ripens now (cell g (fst p) (snd p))}"
    by blast
  have "{p \<in> field. ripens now (cell g (fst p) (snd p))} = (if ripens now T then {(0, 0)} else {})"
  proof -
    have "ripens now (cell g (fst p) (snd p)) \<longleftrightarrow> p = (0, 0) \<and> ripens now T"
      if "p \<in> field" for p
    proof -
      from that have "in_field (fst p) (snd p)" by (simp add: in_field_iff)
      with cells have "cell g (fst p) (snd p) = (if fst p = 0 \<and> snd p = 0 then T else new_Tile)"
        by blast
      then show ?thesis by (cases p) (auto simp: ripens_new_Tile)
    qed
    then show ?thesis using origin_in_field by auto
  qed
  then have cnt: "card {p \<in> field. ripens now (cell g (fst p) (snd p))}
      = (if ripens now T then 1 else 0)" by simp
  have "cell g' i j = (if i = 0 \<and> j = 0 then grown now T else new_Tile)" if "in_field i j" for i j
    using g'(3) cells that by (simp add: grown_new_Tile)
  with g' cnt show ?thesis by simp
qed

lemma bean_fields:
  "crop bean_tile = Some Bean" "planted_at bean_tile = 0" "stage bean_tile = 0"
  "grow_time Bean = 150" "seed_cost Bean = 3" "reward Bean = 8"
  by (simp_all add: bean_tile_def Bean_def mk_crop_def)

lemma bean_field_fields:
  "wf_grid (bean_field rs cs)" "player_x (bean_field rs cs) = 0" "player_y (bean_field rs cs) = 0"
  "coins (bean_field rs cs) = 22" "rabbits (bean_field rs cs) = []"
  "harvest_log (bean_field rs cs) Bean = Some 0"
  by (simp_all add: bean_field_def wf_grid_put_cell wf_grid_init harvest_log_init)
     (simp_all add: init_game_def)

lemma cell_bean_field:
  "in_field i j \<Longrightarrow> cell (bean_field rs cs) i j = (if i = 0 \<and> j = 0 then bean_tile else new_Tile)"
  by (simp add: bean_field_def cell_put_cell wf_grid_init cell_init in_field_origin)

lemma bean_grown:
  "grown 112 bean_tile = bean_tile\<lparr>stage := 2\<rparr>"
  "grown 149 bean_tile = bean_tile\<lparr>stage := 3\<rparr>"
  "grown 150 bean_tile = bean_tile\<lparr>stage := 3\<rparr>"
  "grown 150 (bean_tile\<lparr>stage := 3\<rparr>) = bean_tile\<lparr>stage := 3\<rparr>"
  by (rule Tile.equality; simp add: grown_def bean_fields py_int_def floor_eq_iff)+

lemma bean_ripens:
  "\<not> ripens 112 bean_tile" "ripens 149 bean_tile" "ripens 150 bean_tile"
  "\<not> ripens 150 (bean_tile\<lparr>stage := 3\<rparr>)"
  by (simp_all add: ripens_def bean_grown bean_fields)

lemma bean_planting:
  "handle_key 0 (K_named ''4'') (init_game rs cs) = Inr ((init_game rs cs)\<lparr>selected := Bean\<rparr>)"
  "handle_key 0 K_SPACE ((init_game rs cs)\<lparr>selected := Bean\<rparr>) = Inr (bean_field rs cs)"
proof -
  have "CROP_BY_KEY ''4'' = Some Bean"
    by (simp add: CROP_BY_KEY_def CROPS_def Corn_def Potato_def Tomato_def Bean_def
        Cabbage_def Broccoli_def mk_crop_def)
  then show "handle_key 0 (K_named ''4'') (init_game rs cs)
      = Inr ((init_game rs cs)\<lparr>selected := Bean\<rparr>)"
    by (simp add: handle_key_moves)
  have "coins (init_game rs cs) = 25" "player_x (init_game rs cs) = 0"
    "player_y (init_game rs cs) = 0"
    by (simp_all add: init_game_def)
  then show "handle_key 0 K_SPACE ((init_game rs cs)\<lparr>selected := Bean\<rparr>) = Inr (bean_field rs cs)"
    by (simp add: handle_key_moves handle_action_wf wf_grid_init in_field_origin cell_init
        bean_fields bean_field_def bean_tile_def new_Tile_def)
qed

text \<open>
  Claim C6, as stated, fails at \<open>t = 149\<close>: a growth update at that time puts the bean
  at stage 3, not 2, since \<open>int(149 / 150 * 4) = 3\<close>.
\<close>

theorem bean_stage_at_149:
  "handle_key 0 K_SPACE ((init_game zero_rand frozen_clock)\<lparr>selected := Bean\<rparr>)
     = Inr (bean_field zero_rand frozen_clock)
   \<and> \<not> isl (update_growth 149 (bean_field zero_rand frozen_clock))
   \<and> stage (cell (projr (update_growth 149 (bean_field zero_rand frozen_clock))) 0 0) = 3"
proof -
  from update_growth_single [of "bean_field zero_rand frozen_clock" bean_tile 149]
  obtain g where "update_growth 149 (bean_field zero_rand frozen_clock) = Inr g"
    "\<forall>i j. in_field i j \<longrightarrow> cell g i j = (if i = 0 \<and> j = 0 then grown 149 bean_tile else new_Tile)"
    by (auto simp: bean_field_fields cell_bean_field bean_fields)
  with bean_planting(2) [of zero_rand frozen_clock] show ?thesis
    by (simp add: in_field_origin bean_grown)
qed

text \<open>
  Claim C6, amended. For every generator and clock: the seed key \<open>4\<close> and the action key
  at time 0 plant a bean at the cursor for 3 coins. A growth update at \<open>t = 112\<close> leaves
  stage 2 and no rabbit; a growth update at \<open>t = 149\<close> gives stage 3 and spawns exactly
  one rabbit, and a further update at \<open>t = 150\<close> keeps both; a first growth update at
  \<open>t = 150\<close> gives stage 3 and exactly one rabbit, and the action key at \<open>t = 150\<close> then
  adds exactly 8 coins, increments the bean counter from 0 to 1 and resets the tile.
\<close>

theorem bean_scenario:
  "handle_key 0 (K_named ''4'') (init_game rs cs) = Inr ((init_game rs cs)\<lparr>selected := Bean\<rparr>)
   \<and> handle_key 0 K_SPACE ((init_game rs cs)\<lparr>selected := Bean\<rparr>) = Inr (bean_field rs cs)
   \<and> coins (bean_field rs cs) = coins (init_game rs cs) - 3
   \<and> (\<exists>g. update_growth 112 (bean_field rs cs) = Inr g
         \<and> stage (cell g 0 0) = 2 \<and> rabbits g = [])
   \<and> (\<exists>g. update_growth 149 (bean_field rs cs) = Inr g
         \<and> stage (cell g 0 0) = 3 \<and> length (rabbits g) = 1
         \<and> (\<exists>g'. update_growth 150 g = Inr g'
               \<and> stage (cell g' 0 0) = 3 \<and> length (rabbits g') = 1))
   \<and> (\<exists>g. update_growth 150 (bean_field rs cs) = Inr g
         \<and> stage (cell g 0 0) = 3 \<and> length (rabbits g) = 1
         \<and> harvest_log g Bean = Some 0
         \<and> (\<exists>h. handle_key 150 K_SPACE g = Inr h
               \<and> coins h = coins g + 8
               \<and> harvest_log h Bean = Some 1
               \<and> cell h 0 0 = new_Tile))"
proof -
  let ?b = "bean_field rs cs"
  have pre: "wf_grid ?b"
    "\<forall>i j. in_field i j \<longrightarrow> cell ?b i j = (if i = 0 \<and> j = 0 then bean_tile else new_Tile)"
    "\<forall>c. crop bean_tile = Some c \<longrightarrow> grow_time c \<noteq> 0"
    by (simp_all add: bean_field_fields cell_bean_field bean_fields)
  have c0: "coins ?b = coins (init_game rs cs) - 3"
    by (simp add: bean_field_fields init_game_def)
  from update_growth_single [OF pre, of 112]
  have u112: "\<exists>g. update_growth 112 ?b = Inr g \<and> stage (cell g 0 0) = 2 \<and> rabbits g = []"
    by (auto simp: in_field_origin bean_grown bean_ripens bean_field_fields)
  from update_growth_single [OF pre, of 149] obtain g1 where
    g1: "update_growth 149 ?b = Inr g1" "wf_grid g1"
      "\<forall>i j. in_field i j \<longrightarrow>
          cell g1 i j = (if i = 0 \<and> j = 0 then bean_tile\<lparr>stage := 3\<rparr> else new_Tile)"
      "length (rabbits g1) = 1"
    by (auto simp: bean_grown bean_ripens bean_field_fields)
  have nz3: "\<forall>c. crop (bean_tile\<lparr>stage := 3\<rparr>) = Some c \<longrightarrow> grow_time c \<noteq> 0"
    by (simp add: bean_fields)
  from update_growth_single [OF g1(2,3) nz3, of 150] g1(4)
  have "\<exists>g'. update_growth 150 g1 = Inr g' \<and> stage (cell g' 0 0) = 3 \<and> length (rabbits g') = 1"
    by (auto simp: in_field_origin bean_grown bean_ripens)
  with g1 have u149: "\<exists>g. update_growth 149 ?b = Inr g
         \<and> stage (cell g 0 0) = 3 \<and> length (rabbits g) = 1
         \<and> (\<exists>g'. update_growth 150 g = Inr g'
               \<and> stage (cell g' 0 0) = 3 \<and> length (rabbits g') = 1)"
    by (simp add: in_field_origin)
  from update_growth_single [OF pre, of 150] obtain g2 where
    g2: "update_growth 150 ?b = Inr g2" "wf_grid g2"
      "cell g2 0 0 = bean_tile\<lparr>stage := 3\<rparr>"
      "length (rabbits g2) = 1" "harvest_log g2 Bean = Some 0"
      "player_x g2 = 0" "player_y g2 = 0"
    by (auto simp: in_field_origin bean_grown bean_ripens bean_field_fields)
  have "\<exists>h. handle_key 150 K_SPACE g2 = Inr h
               \<and> coins h = coins g2 + 8
               \<and> harvest_log h Bean = Some 1
               \<and> cell h 0 0 = new_Tile"
    using g2
    by (simp add: handle_key_moves handle_action_wf in_field_origin bean_fields
        cell_put_cell)
  with g2 have u150: "\<exists>g. update_growth 150 ?b = Inr g
         \<and> stage (cell g 0 0) = 3 \<and> length (rabbits g) = 1
         \<and> harvest_log g Bean = Some 0
         \<and> (\<exists>h. handle_key 150 K_SPACE g = Inr h
               \<and> coins h = coins g + 8
               \<and> harvest_log h Bean = Some 1
               \<and> cell h 0 0 = new_Tile)"
    by simp
  from bean_planting [of rs cs] c0 u112 u149 u150 show ?thesis by blast
qed

lemma slow_fields:
  "crop slow_tile = Some Slow" "planted_at slow_tile = 0" "stage slow_tile = 1"
  "\<not> fertilized slow_tile" "grow_time Slow = 200"
  by (simp_all add: slow_tile_def Slow_def mk_crop_def)

lemma slow_planted_fields:
  "wf_grid slow_planted" "player_x slow_planted = 0" "player_y slow_planted = 0"
  "coins slow_planted = 20" "cell slow_planted 0 0 = slow_tile"
  by (simp_all add: slow_planted_def demo_start_fields wf_grid_put_cell cell_put_cell
      in_field_origin)

lemma cell_slow_planted:
  "in_field i j \<Longrightarrow> cell slow_planted i j = (if i = 0 \<and> j = 0 then slow_tile else new_Tile)"
  by (simp add: slow_planted_def demo_start_def cell_put_cell wf_grid_init cell_init
      in_field_origin)

lemma crops_ok_slow_planted: "crops_ok slow_planted"
  by (rule crops_ok_single [where T = slow_tile])
     (simp_all add: slow_planted_fields cell_slow_planted slow_fields)

lemma slow_fertilizing: "handle_fertilizer 100 slow_planted = Inr slow_fertilized"
proof -
  have "remaining_time 100 slow_tile = 100"
    by (simp add: remaining_time_def slow_fields fl_numeral)
  then show ?thesis
    by (simp add: handle_fertilizer_wf slow_planted_fields in_field_origin slow_fields
        slow_fertilized_def fl_numeral)
qed

lemma cell_slow_fertilized:
  "in_field i j \<Longrightarrow> cell slow_fertilized i j =
     (if i = 0 \<and> j = 0
      then slow_tile\<lparr>planted_at := - 50, fertilized := True, sparkle_t := 100\<rparr>
      else new_Tile)"
  by (simp add: slow_fertilized_def cell_put_cell slow_planted_fields cell_slow_planted
      in_field_origin)

text \<open>
  Claim C7, as stated, fails: the fertilized tile does not wait until \<open>t = 150\<close>. The
  growth update of the same tick, at \<open>t = 100\<close>, sees an elapsed time of 150 and puts the
  tile at stage 3, since \<open>int(150 / 200 * 4) = 3\<close>.
\<close>

theorem slow_stage_at_100:
  "handle_fertilizer 100 slow_planted = Inr slow_fertilized
   \<and> \<not> isl (update_growth 100 slow_fertilized)
   \<and> stage (cell (projr (update_growth 100 slow_fertilized)) 0 0) = 3"
proof -
  let ?T = "slow_tile\<lparr>planted_at := - 50, fertilized := True, sparkle_t := 100\<rparr>"
  have g: "stage (grown 100 ?T) = 3"
    by (simp add: grown_def slow_fields py_int_def floor_eq_iff)
  have "wf_grid slow_fertilized"
    by (simp add: slow_fertilized_def wf_grid_put_cell slow_planted_fields)
  from update_growth_single [OF this, of ?T 100]
  obtain g' where "update_growth 100 slow_fertilized = Inr g'"
    "\<forall>i j. in_field i j \<longrightarrow> cell g' i j = (if i = 0 \<and> j = 0 then grown 100 ?T else new_Tile)"
    by (auto simp: cell_slow_fertilized slow_fields)
  with g slow_fertilizing show ?thesis by (simp add: in_field_origin)
qed

text \<open>
  Claim C7, amended. Take a tile under the cursor planted at \<open>t = 0\<close> with a crop of grow
  time 200, below stage 3 and not fertilized, and at least 5 coins. The fertilizer key at
  \<open>t = 100\<close> leaves a remaining growth time of exactly 50. From then on every growth
  update at a time \<open>t \<ge> 100\<close> puts the tile at stage 3 (so it is at stage 3 at
  \<open>t = 150\<close>, and already at \<open>t = 100\<close>). Without the fertilizer a growth update at
  \<open>t = 149\<close> gives stage 2 and one at \<open>t = 150\<close> gives stage 3.
\<close>

theorem fertilized_at_100_of_200:
  assumes "wf_grid g" and "crops_ok g" and "in_field (player_x g) (player_y g)"
    and "crop (cell g (player_x g) (player_y g)) = Some c" and "grow_time c = 200"
    and "planted_at (cell g (player_x g) (player_y g)) = 0"
    and "\<not> fertilized (cell g (player_x g) (player_y g))"
    and "stage (cell g (player_x g) (player_y g)) \<noteq> 3"
    and "5 \<le> coins g" and "100 \<le> t"
  shows "\<exists>gf. handle_fertilizer 100 g = Inr gf
     \<and> remaining_time 100 (cell gf (player_x g) (player_y g)) = 50
     \<and> (\<exists>g1. update_growth t gf = Inr g1 \<and> stage (cell g1 (player_x g) (player_y g)) = 3)
     \<and> (\<exists>g1. update_growth 149 g = Inr g1 \<and> stage (cell g1 (player_x g) (player_y g)) = 2)
     \<and> (\<exists>g1. update_growth 150 g = Inr g1 \<and> stage (cell g1 (player_x g) (player_y g)) = 3)"
proof -
  let ?i = "player_x g" and ?j = "player_y g"
  let ?T = "cell g ?i ?j"
  let ?F = "?T\<lparr>planted_at := - 50, fertilized := True, sparkle_t := 100\<rparr>"
  let ?gf = "put_cell (g\<lparr>coins := coins g - 5\<rparr>) ?i ?j ?F"
  have rem: "remaining_time 100 ?T = 100"
    using assms(4,5,6) by (simp add: remaining_time_def fl_numeral)
  have f: "handle_fertilizer 100 g = Inr ?gf"
    using assms(1,3,4,7,9) rem assms(6) by (simp add: handle_fertilizer_wf Let_def fl_numeral)
  have wff: "wf_grid ?gf" using assms(1) by (simp add: wf_grid_put_cell)
  have cf: "cell ?gf i j = (if i = ?i \<and> j = ?j then ?F else cell g i j)" if "in_field i j" for i j
    using assms(1,3) that by (simp add: cell_put_cell)
  have okf: "crops_ok ?gf"
    unfolding crops_ok_iff [OF wff]
  proof (intro allI impI, elim conjE)
    fix i j d assume ij: "in_field i j" and d: "crop (cell ?gf i j) = Some d"
    from cf [OF ij] d have "crop (cell g i j) = Some d \<or> crop ?T = Some d"
      by (auto split: if_splits)
    with assms(1,2,3) ij show "grow_time d \<noteq> 0" by (auto dest: crops_ok_cell)
  qed
  have r50: "remaining_time 100 (cell ?gf ?i ?j) = 50"
    using cf [OF assms(3)] assms(4,5) by (simp add: remaining_time_def fl_numeral)
  have s3: "stage (grown t ?F) = 3"
  proof -
    have "3 \<le> (t + 50) / 200 * 4" using assms(10) by simp
    then have "3 \<le> \<lfloor>(t + 50) / 200 * 4\<rfloor>" by (simp add: le_floor_iff)
    moreover have "0 \<le> (t + 50) / 200 * 4" using assms(10) by simp
    ultimately show ?thesis
      using assms(4,5,8) by (simp add: grown_def py_int_def)
  qed
  from update_growth_cell [OF wff okf, of t] obtain g1 where
    "update_growth t ?gf = Inr g1" "cell g1 ?i ?j = grown t (cell ?gf ?i ?j)"
    using assms(3) by blast
  with cf [OF assms(3)] s3
  have a: "\<exists>g1. update_growth t ?gf = Inr g1 \<and> stage (cell g1 ?i ?j) = 3" by simp
  have s149: "stage (grown 149 ?T) = 2" and s150: "stage (grown 150 ?T) = 3"
    using assms(4,5,6,8) by (simp_all add: grown_def py_int_def floor_eq_iff)
  from update_growth_cell [OF assms(1,2), of 149] obtain g2 where
    "update_growth 149 g = Inr g2" "cell g2 ?i ?j = grown 149 ?T"
    using assms(3) by blast
  with s149 have b: "\<exists>g1. update_growth 149 g = Inr g1 \<and> stage (cell g1 ?i ?j) = 2" by simp
  from update_growth_cell [OF assms(1,2), of 150] obtain g3 where
    "update_growth 150 g = Inr g3" "cell g3 ?i ?j = grown 150 ?T"
    using assms(3) by blast
  with s150 have c: "\<exists>g1. update_growth 150 g = Inr g1 \<and> stage (cell g1 ?i ?j) = 3" by simp
  from f r50 a b c show ?thesis by blast
qed

text \<open>The crop \<open>Slow\<close> at \<open>(0, 0)\<close>, with the growth update at \<open>t = 150\<close>.\<close>

theorem fertilized_at_100_of_200_witness:
  "\<exists>gf. handle_fertilizer 100 slow_planted = Inr gf
     \<and> remaining_time 100 (cell gf 0 0) = 50
     \<and> (\<exists>g1. update_growth 150 gf = Inr g1 \<and> stage (cell g1 0 0) = 3)
     \<and> (\<exists>g1. update_growth 149 slow_planted = Inr g1 \<and> stage (cell g1 0 0) = 2)
     \<and> (\<exists>g1. update_growth 150 slow_planted = Inr g1 \<and> stage (cell g1 0 0) = 3)"
proof -
  have h: "wf_grid slow_planted" "crops_ok slow_planted"
    "in_field (player_x slow_planted) (player_y slow_planted)"
    "crop (cell slow_planted (player_x slow_planted) (player_y slow_planted)) = Some Slow"
    "grow_time Slow = 200"
    "planted_at (cell slow_planted (player_x slow_planted) (player_y slow_planted)) = 0"
    "\<not> fertilized (cell slow_planted (player_x slow_planted) (player_y slow_planted))"
    "stage (cell slow_planted (player_x slow_planted) (player_y slow_planted)) \<noteq> 3"
    "5 \<le> coins slow_planted" "(100::rat) \<le> 150"
    by (simp_all add: slow_planted_fields slow_fields crops_ok_slow_planted in_field_origin)
  from fertilized_at_100_of_200 [OF h] show ?thesis
    by (simp add: slow_planted_fields)
qed

section \<open>How the example states are reached\<close>

lemma corn_planting: "handle_action 0 demo_start = Inr corn_planted"
proof -
  have "new_Tile\<lparr>crop := Some Corn, planted_at := 0, stage := 0, fertilized := False,
                flash_to := 0 + 3 / 10\<rparr> = corn_tile"
    by (simp add: new_Tile_def corn_tile_def)
  then show ?thesis
    by (simp add: handle_action_wf demo_start_fields in_field_origin corn_tile_fields
        corn_planted_def)
qed

lemma spawn_try_all_hit:
  assumes "\<forall>m<n. spawn_draw g m = (player_x g, player_y g)"
  shows "spawn_try n b g =
     ((if n = 0 then b else Some (player_x g, player_y g)), g\<lparr>rand_pos := rand_pos g + 2 * n\<rparr>)"
proof -
  obtain r g' where st: "spawn_try n b g = (r, g')" by (cases "spawn_try n b g")
  from spawn_try_cases [OF st] assms
  have "r = (if n = 0 then b else Some (player_x g, player_y g))"
    "g' = g\<lparr>rand_pos := rand_pos g + 2 * n\<rparr>"
    by auto
  with st show ?thesis by simp
qed

lemma corn_planted_ambient:
  "rand_src corn_planted = zero_rand" "rand_pos corn_planted = 0"
  "clock_src corn_planted = frozen_clock" "clock_pos corn_planted = 0"
  by (simp_all add: corn_planted_def demo_start_def init_game_def)

lemma spawn_rabbit_corn_planted:
  "spawn_rabbit corn_planted =
     Inr (corn_planted\<lparr>rabbits := [\<lparr>rabbit_x = 0, rabbit_y = 0, next_move = 240\<rparr>],
                       rand_pos := 61, clock_pos := 1\<rparr>)"
proof -
  have "\<forall>m<30. spawn_draw corn_planted m = (player_x corn_planted, player_y corn_planted)"
    by (simp add: spawn_draw_def corn_planted_ambient corn_planted_fields zero_rand_def)
  then have "spawn_try 30 None corn_planted =
      (Some (0, 0), corn_planted\<lparr>rand_pos := 60\<rparr>)"
    by (simp add: spawn_try_all_hit corn_planted_fields corn_planted_ambient)
  then show ?thesis
    by (simp add: spawn_rabbit_def time_time_def random_random_def corn_planted_ambient
        corn_planted_fields zero_rand_def frozen_clock_def)
qed

lemma corn_ripens_at_origin: "growth_body 240 0 0 corn_planted = Inr corn_ripe"
proof -
  have "min (py_int (((240 - planted_at corn_tile) / grow_time Corn) * 4)) 3 = 3"
    by (simp add: corn_tile_fields py_int_def)
  then show ?thesis
    unfolding growth_body_def Let_def
    by (simp add: get_tile_wf set_tile_wf corn_planted_fields in_field_origin corn_tile_fields
        spawn_rabbit_corn_planted corn_ripe_def)
qed

lemma cell_corn_ripe:
  "in_field i j \<Longrightarrow> cell corn_ripe i j = (if i = 0 \<and> j = 0 then corn_tile\<lparr>stage := 3\<rparr> else new_Tile)"
  by (simp add: corn_ripe_def cell_put_cell corn_planted_fields cell_corn_planted in_field_origin)

lemma corn_ripe_idle:
  assumes "in_field gx gy"
  shows "growth_body 240 gx gy corn_ripe = Inr corn_ripe"
  using assms
  by (simp add: growth_body_def get_tile_wf corn_ripe_fields cell_corn_ripe new_Tile_def
      corn_tile_fields)

lemma for_each_idle: "\<forall>a \<in> set as. f a s = Inr s \<Longrightarrow> for_each as f s = Inr s"
  by (induction as) simp_all

lemma py_range_Cons: "0 < n \<Longrightarrow> py_range n = 0 # map int [1..<nat n]"
  by (simp add: py_range_def upt_conv_Cons)

text \<open>The growth update at time 240 takes \<open>corn_planted\<close> to \<open>corn_ripe\<close>.\<close>

lemma corn_ripening: "update_growth 240 corn_planted = Inr corn_ripe"
proof -
  let ?col = "\<lambda>gx. for_each (py_range ROWS) (\<lambda>gy. growth_body 240 gx gy)"
  have rest0: "for_each (map int [1..<nat ROWS]) (\<lambda>gy. growth_body 240 0 gy) corn_ripe
      = Inr corn_ripe"
    by (rule for_each_idle) (auto simp: corn_ripe_idle in_field_def COLS_def ROWS_def)
  have rows: "py_range ROWS = 0 # map int [1..<nat ROWS]"
    by (rule py_range_Cons) (simp add: ROWS_def)
  have cols: "py_range COLS = 0 # map int [1..<nat COLS]"
    by (rule py_range_Cons) (simp add: COLS_def)
  have col0: "?col 0 corn_planted = Inr corn_ripe"
    by (simp only: rows for_each.simps corn_ripens_at_origin sum.case rest0)
  have idle: "?col gx corn_ripe = Inr corn_ripe" if "0 \<le> gx" "gx < COLS" for gx
    by (rule for_each_idle) (use that in \<open>auto simp: corn_ripe_idle in_field_def set_py_range\<close>)
  have rest: "for_each (map int [1..<nat COLS]) ?col corn_ripe = Inr corn_ripe"
    by (rule for_each_idle) (auto simp: idle COLS_def)
  have "for_each (py_range COLS) ?col corn_planted = Inr corn_ripe"
    unfolding cols by (simp only: for_each.simps col0 sum.case rest)
  then show ?thesis
    unfolding update_growth_def .
qed

lemma corn_ripe_trace:
  "run_steps [Input 0 [KEYDOWN K_SPACE], Growth 240] demo_start = Inr corn_ripe"
  by (simp add: run_steps_def do_step_def handle_input_def handle_event_def handle_key_moves
      corn_planting corn_ripening)

lemma bean_field_trace:
  "run_steps [Input 0 [KEYDOWN (K_named ''4''), KEYDOWN K_SPACE]] (init_game rs cs)
     = Inr (bean_field rs cs)"
  by (simp add: run_steps_def do_step_def handle_input_def handle_event_def bean_planting)

text \<open>
  Claim C4, as stated, fails where the tile under the cursor is occupied at stage 3:
  there the same command harvests, which changes the coins, the harvest counter and
  the tile. The state \<open>corn_ripe\<close> is reached by planting corn at time 0 and a growth
  update at time 240.
\<close>

theorem plant_on_ripe_cell_changes_state:
  "run_steps [Input 0 [KEYDOWN K_SPACE], Growth 240] demo_start = Inr corn_ripe
   \<and> crop (cell corn_ripe (player_x corn_ripe) (player_y corn_ripe)) \<noteq> None
   \<and> handle_action 240 corn_ripe \<noteq> Inr corn_ripe"
proof -
  have "handle_action 240 corn_ripe \<noteq> Inr corn_ripe"
  proof
    assume a: "handle_action 240 corn_ripe = Inr corn_ripe"
    have "handle_action 240 corn_ripe = Inr corn_harvested"
      by (simp add: handle_action_wf corn_ripe_fields in_field_origin corn_tile_fields
          corn_harvested_def)
    with a have "corn_harvested = corn_ripe" by simp
    then have "coins corn_harvested = coins corn_ripe" by simp
    then show False by (simp add: corn_harvested_def corn_ripe_fields)
  qed
  with corn_ripe_trace show ?thesis
    by (simp add: corn_ripe_fields corn_tile_fields)
qed

section \<open>Rabbits\<close>

lemma py_get_nth: "k < length xs \<Longrightarrow> py_get xs (int k) = Inr (xs ! k)"
  by (simp add: py_get_def py_index_def)

lemma rabbits_ok_upd [simp]:
  "rabbits_ok (g\<lparr>coins := a\<rparr>) = rabbits_ok g"
  "rabbits_ok (g\<lparr>harvest_log := b\<rparr>) = rabbits_ok g"
  "rabbits_ok (g\<lparr>player_x := d\<rparr>) = rabbits_ok g"
  "rabbits_ok (g\<lparr>player_y := d\<rparr>) = rabbits_ok g"
  "rabbits_ok (g\<lparr>selected := e\<rparr>) = rabbits_ok g"
  "rabbits_ok (g\<lparr>rand_pos := f\<rparr>) = rabbits_ok g"
  "rabbits_ok (g\<lparr>clock_pos := f\<rparr>) = rabbits_ok g"
  "rabbits_ok (put_cell g i j t) = rabbits_ok g"
  by (simp_all add: rabbits_ok_def)

lemma hop_leaves:
  "(a + 1) mod 8 \<noteq> (a::int)" "(a - 1) mod 8 \<noteq> a"
  "(b + 1) mod 6 \<noteq> (b::int)" "(b - 1) mod 6 \<noteq> b"
  by presburger+

text \<open>One pass of the body of the loop of \<open>update_rabbits\<close>, for the rabbit at index \<open>k\<close>.\<close>

lemma rabbit_body_step:
  assumes "wf_grid g" "rabbits_ok g" "k < length (rabbits g)"
  shows "\<exists>g' r'. rabbit_body now k g = Inr g' \<and> wf_grid g'
     \<and> rabbits g' = (rabbits g)[k := r']
     \<and> in_field (rabbit_x r') (rabbit_y r')
     \<and> (now < next_move (rabbits g ! k) \<longrightarrow> r' = rabbits g ! k)
     \<and> (next_move (rabbits g ! k) \<le> now \<longrightarrow>
          (rabbit_x r', rabbit_y r') \<noteq> (rabbit_x (rabbits g ! k), rabbit_y (rabbits g ! k)))
     \<and> (\<forall>i j. in_field i j \<longrightarrow>
           cell g' i j =
             (if i = rabbit_x r' \<and> j = rabbit_y r'
                 \<and> crop (cell g i j) \<noteq> None \<and> stage (cell g i j) = 3
              then new_Tile else cell g i j))
     \<and> coins g' = coins g \<and> harvest_log g' = harvest_log g
     \<and> player_x g' = player_x g \<and> player_y g' = player_y g \<and> selected g' = selected g"
proof -
  let ?r = "rabbits g ! k"
  define mv where "mv \<longleftrightarrow> now \<ge> next_move ?r"
  define d :: "int \<times> int"
    where "d = [(0, -1), (0, 1), (-1, 0), (1, 0)] ! (rand_src g (rand_pos g) mod 4)"
  define r1 where "r1 =
     (if mv then ?r\<lparr>rabbit_x := (rabbit_x ?r + fst d) mod COLS,
                     rabbit_y := (rabbit_y ?r + snd d) mod ROWS,
                     next_move := now + RABBIT_MOVE_INT\<rparr>
      else ?r)"
  define g1 where "g1 = (if mv then g\<lparr>rand_pos := rand_pos g + 1\<rparr> else g)"
  define g2 where "g2 = g1\<lparr>rabbits := (rabbits g1)[k := r1]\<rparr>"
  have pre: "(if now \<ge> next_move ?r then
                (let ((dx, dy), g') = random_choice [(0, -1), (0, 1), (-1, 0), (1, 0)] g
                 in (?r\<lparr>rabbit_x := (rabbit_x ?r + dx) mod COLS,
                         rabbit_y := (rabbit_y ?r + dy) mod ROWS,
                         next_move := now + RABBIT_MOVE_INT\<rparr>, g'))
              else (?r, g)) = (r1, g1)"
    by (simp add: r1_def g1_def mv_def d_def random_choice_def split_beta)
  have body: "rabbit_body now k g =
     (case get_tile g2 (rabbit_x r1) (rabbit_y r1) of
        Inl e \<Rightarrow> Inl e
      | Inr tile \<Rightarrow>
          if crop tile \<noteq> None \<and> stage tile = 3
          then set_tile g2 (rabbit_x r1) (rabbit_y r1) new_Tile
          else Inr g2)"
    apply (unfold rabbit_body_def py_get_nth [OF assms(3)] sum.case)
    apply (unfold pre)
    apply (unfold Let_def prod.case g2_def)
    apply (rule refl)
    done
  have "?r \<in> set (rabbits g)" using assms(3) by simp
  with assms(2) have fr0: "in_field (rabbit_x ?r) (rabbit_y ?r)" by (simp add: rabbits_ok_def)
  then have f1: "in_field (rabbit_x r1) (rabbit_y r1)"
    by (simp add: r1_def in_field_def COLS_def ROWS_def)
  have wf2: "wf_grid g2" using assms(1) by (simp add: g2_def g1_def)
  have c2: "cell g2 = cell g" by (simp add: g2_def g1_def)
  have fr: "coins g2 = coins g" "harvest_log g2 = harvest_log g" "player_x g2 = player_x g"
    "player_y g2 = player_y g" "selected g2 = selected g" "rabbits g2 = (rabbits g)[k := r1]"
    by (simp_all add: g2_def g1_def)
  have same: "now < next_move ?r \<longrightarrow> r1 = ?r" by (simp add: r1_def mv_def)
  have "rand_src g (rand_pos g) mod 4 < 4" by simp
  then consider "rand_src g (rand_pos g) mod 4 = 0" | "rand_src g (rand_pos g) mod 4 = 1"
    | "rand_src g (rand_pos g) mod 4 = 2" | "rand_src g (rand_pos g) mod 4 = 3"
    by linarith
  then have dirs: "d = (0, -1) \<or> d = (0, 1) \<or> d = (-1, 0) \<or> d = (1, 0)"
    by cases (simp_all add: d_def)
  have moved: "next_move ?r \<le> now \<longrightarrow> (rabbit_x r1, rabbit_y r1) \<noteq> (rabbit_x ?r, rabbit_y ?r)"
  proof
    assume "next_move ?r \<le> now"
    then have r1: "rabbit_x r1 = (rabbit_x ?r + fst d) mod COLS"
      "rabbit_y r1 = (rabbit_y ?r + snd d) mod ROWS"
      by (simp_all add: r1_def mv_def)
    from fr0 dirs show "(rabbit_x r1, rabbit_y r1) \<noteq> (rabbit_x ?r, rabbit_y ?r)"
      unfolding r1 by (auto simp: COLS_def ROWS_def hop_leaves)
  qed
  let ?t = "cell g (rabbit_x r1) (rabbit_y r1)"
  show ?thesis
  proof (cases "crop ?t \<noteq> None \<and> stage ?t = 3")
    case True
    let ?g' = "put_cell g2 (rabbit_x r1) (rabbit_y r1) new_Tile"
    have "rabbit_body now k g = Inr ?g'"
      using True wf2 f1 by (simp add: body get_tile_wf set_tile_wf c2)
    moreover have "wf_grid ?g'" using wf2 by (rule wf_grid_put_cell)
    moreover have "cell ?g' i j =
        (if i = rabbit_x r1 \<and> j = rabbit_y r1 \<and> crop (cell g i j) \<noteq> None \<and> stage (cell g i j) = 3
         then new_Tile else cell g i j)" if "in_field i j" for i j
      using wf2 f1 that True by (auto simp: cell_put_cell c2)
    ultimately show ?thesis using fr f1 same moved
      by (intro exI [of _ ?g'] exI [of _ r1]) simp
  next
    case False
    have "rabbit_body now k g = Inr g2"
      using False wf2 f1 by (auto simp: body get_tile_wf c2)
    moreover have "cell g2 i j =
        (if i = rabbit_x r1 \<and> j = rabbit_y r1 \<and> crop (cell g i j) \<noteq> None \<and> stage (cell g i j) = 3
         then new_Tile else cell g i j)" for i j
      using False by (auto simp: c2)
    ultimately show ?thesis using fr f1 same moved wf2
      by (intro exI [of _ g2] exI [of _ r1]) simp
  qed
qed


lemma rabbits_ok_list_update:
  assumes "rabbits_ok g" "rabbits g' = (rabbits g)[k := r]" "in_field (rabbit_x r) (rabbit_y r)"
  shows "rabbits_ok g'"
  unfolding rabbits_ok_def
proof
  fix q assume "q \<in> set (rabbits g')"
  with assms(2) have "q \<in> insert r (set (rabbits g))"
    using set_update_subset_insert [of "rabbits g" k r] by auto
  with assms(1,3) show "in_field (rabbit_x q) (rabbit_y q)"
    by (auto simp: rabbits_ok_def)
qed

lemma hopped_refl: "wf_grid g \<Longrightarrow> rabbits_ok g \<Longrightarrow> hopped g g"
  by (simp add: hopped_def)

lemma hopped_trans: "hopped g g1 \<Longrightarrow> hopped g1 g2 \<Longrightarrow> hopped g g2"
  unfolding hopped_def by (elim conjE, intro conjI) (simp_all, metis)

lemma rabbit_body_hopped:
  assumes "wf_grid g" "rabbits_ok g" "k < length (rabbits g)"
  shows "\<exists>g'. rabbit_body now k g = Inr g' \<and> hopped g g'
     \<and> (\<forall>m. m \<noteq> k \<longrightarrow> rabbits g' ! m = rabbits g ! m)"
proof -
  from rabbit_body_step [OF assms, of now] obtain g' r' where
    s: "rabbit_body now k g = Inr g'" "wf_grid g'" "rabbits g' = (rabbits g)[k := r']"
      "in_field (rabbit_x r') (rabbit_y r')"
      "\<forall>i j. in_field i j \<longrightarrow>
           cell g' i j =
             (if i = rabbit_x r' \<and> j = rabbit_y r'
                 \<and> crop (cell g i j) \<noteq> None \<and> stage (cell g i j) = 3
              then new_Tile else cell g i j)"
      "coins g' = coins g" "harvest_log g' = harvest_log g"
      "player_x g' = player_x g" "player_y g' = player_y g" "selected g' = selected g"
    by blast
  have "rabbits_ok g'" using assms(2) s(3,4) by (rule rabbits_ok_list_update)
  moreover have "cell g' i j = cell g i j \<or> cell g' i j = new_Tile" if "in_field i j" for i j
    using s(5) that by simp
  ultimately have "hopped g g'" using s by (simp add: hopped_def)
  with s(1,3) show ?thesis by simp
qed

lemma rabbits_loop:
  assumes "wf_grid g" "rabbits_ok g" "\<forall>k \<in> set ks. k < length (rabbits g)"
  shows "\<exists>g'. for_each ks (rabbit_body now) g = Inr g' \<and> hopped g g'
     \<and> (\<forall>m. m \<notin> set ks \<longrightarrow> rabbits g' ! m = rabbits g ! m)"
  using assms
proof (induction ks arbitrary: g)
  case Nil
  then show ?case by (simp add: hopped_refl)
next
  case (Cons a ks)
  from Cons.prems have "a < length (rabbits g)" by simp
  from rabbit_body_hopped [OF Cons.prems(1,2) this, of now] obtain g1 where
    g1: "rabbit_body now a g = Inr g1" "hopped g g1"
      "\<forall>m. m \<noteq> a \<longrightarrow> rabbits g1 ! m = rabbits g ! m"
    by blast
  from g1(2) have w1: "wf_grid g1" "rabbits_ok g1" "length (rabbits g1) = length (rabbits g)"
    by (simp_all add: hopped_def)
  with Cons.prems(3) have "\<forall>k \<in> set ks. k < length (rabbits g1)" by simp
  from Cons.IH [OF w1(1,2) this] obtain g' where
    g': "for_each ks (rabbit_body now) g1 = Inr g'" "hopped g1 g'"
      "\<forall>m. m \<notin> set ks \<longrightarrow> rabbits g' ! m = rabbits g1 ! m"
    by blast
  from g1(2) g'(2) have "hopped g g'" by (rule hopped_trans)
  with g1 g' show ?case by simp
qed

lemma rabbits_loop_eats:
  assumes "for_each ks (rabbit_body now) g = Inr g'"
    and "wf_grid g" "rabbits_ok g" "\<forall>m \<in> set ks. m < length (rabbits g)"
    and "distinct ks" "k \<in> set ks"
    and "now < next_move (rabbits g ! k)"
    and "i = rabbit_x (rabbits g ! k)" "j = rabbit_y (rabbits g ! k)"
    and "cell g i j = new_Tile \<or> (crop (cell g i j) \<noteq> None \<and> stage (cell g i j) = 3)"
  shows "cell g' i j = new_Tile"
  using assms
proof (induction ks arbitrary: g)
  case Nil
  then show ?case by simp
next
  case (Cons a ks)
  have ak: "a < length (rabbits g)" "k < length (rabbits g)"
    using Cons.prems(4,6) by auto
  then have "rabbits g ! k \<in> set (rabbits g)" by simp
  with Cons.prems(3,8,9) have ij: "in_field i j" by (simp add: rabbits_ok_def)
  from rabbit_body_step [OF Cons.prems(2,3) ak(1), of now] obtain g1 r' where
    s: "rabbit_body now a g = Inr g1" "wf_grid g1" "rabbits g1 = (rabbits g)[a := r']"
      "in_field (rabbit_x r') (rabbit_y r')"
      "now < next_move (rabbits g ! a) \<longrightarrow> r' = rabbits g ! a"
      "\<forall>i j. in_field i j \<longrightarrow>
           cell g1 i j =
             (if i = rabbit_x r' \<and> j = rabbit_y r'
                 \<and> crop (cell g i j) \<noteq> None \<and> stage (cell g i j) = 3
              then new_Tile else cell g i j)"
    by blast
  have ok1: "rabbits_ok g1" using Cons.prems(3) s(3,4) by (rule rabbits_ok_list_update)
  have len1: "\<forall>m \<in> set ks. m < length (rabbits g1)"
    using Cons.prems(4) s(3) by simp
  from Cons.prems(1) s(1) have rest: "for_each ks (rabbit_body now) g1 = Inr g'" by simp
  show ?case
  proof (cases "a = k")
    case True
    with s(5) Cons.prems(7) have "r' = rabbits g ! k" by simp
    with s(6) ij Cons.prems(8,9,10) have c1: "cell g1 i j = new_Tile" by auto
    from rabbits_loop [OF s(2) ok1 len1, of now] rest have "hopped g1 g'" by simp
    with ij have "cell g' i j = cell g1 i j \<or> cell g' i j = new_Tile"
      unfolding hopped_def by blast
    with c1 show ?thesis by simp
  next
    case False
    with s(3) have same: "rabbits g1 ! k = rabbits g ! k" by simp
    from s(6) ij Cons.prems(10)
    have q1: "cell g1 i j = new_Tile \<or> (crop (cell g1 i j) \<noteq> None \<and> stage (cell g1 i j) = 3)"
      by auto
    show ?thesis
    proof (rule Cons.IH [OF rest s(2) ok1 len1])
      show "distinct ks" using Cons.prems(5) by simp
      show "k \<in> set ks" using Cons.prems(6) False by simp
      show "now < next_move (rabbits g1 ! k)" using Cons.prems(7) same by simp
      show "i = rabbit_x (rabbits g1 ! k)" "j = rabbit_y (rabbits g1 ! k)"
        using Cons.prems(8,9) same by simp_all
      show "cell g1 i j = new_Tile \<or> (crop (cell g1 i j) \<noteq> None \<and> stage (cell g1 i j) = 3)"
        by (rule q1)
    qed
  qed
qed

lemma corn_rested_fields:
  "wf_grid corn_rested" "rabbits corn_rested = [\<lparr>rabbit_x = 0, rabbit_y = 0, next_move = 300\<rparr>]"
  "coins corn_rested = 20" "cell corn_rested 0 0 = corn_tile\<lparr>stage := 3\<rparr>"
  "rabbits_ok corn_rested" "harvest_log corn_rested = harvest_log corn_ripe"
  by (simp_all add: corn_rested_def corn_ripe_fields rabbits_ok_def in_field_origin)

lemma rabbits_ok_corn_ripe: "rabbits_ok corn_ripe"
  by (simp add: rabbits_ok_def corn_ripe_fields in_field_origin)

text \<open>
  Claim C5, as stated, fails for a rabbit that is due to move: it hops first and checks
  only the tile it lands on. In the frame at time 240 the growth update ripens the corn
  at \<open>(0, 0)\<close> and spawns a rabbit on it with \<open>next_move = 240\<close>; after \<open>update_rabbits\<close>
  of the same frame the corn is still there.
\<close>

theorem due_rabbit_spares_cell:
  "run_steps [Input 0 [KEYDOWN K_SPACE], Growth 240] demo_start = Inr corn_ripe
   \<and> rabbits corn_ripe = [\<lparr>rabbit_x = 0, rabbit_y = 0, next_move = 240\<rparr>]
   \<and> crop (cell corn_ripe 0 0) = Some Corn \<and> stage (cell corn_ripe 0 0) = 3
   \<and> \<not> isl (update_rabbits 240 corn_ripe)
   \<and> cell (projr (update_rabbits 240 corn_ripe)) 0 0 = cell corn_ripe 0 0
   \<and> cell corn_ripe 0 0 \<noteq> new_Tile"
proof -
  have k: "(0::nat) < length (rabbits corn_ripe)" by (simp add: corn_ripe_fields)
  from rabbit_body_step [OF corn_ripe_fields(1) rabbits_ok_corn_ripe k, of 240]
  obtain g' and r' :: Rabbit where
    s: "rabbit_body 240 0 corn_ripe = Inr g'"
      "next_move (rabbits corn_ripe ! 0) \<le> 240 \<longrightarrow>
         (rabbit_x r', rabbit_y r')
           \<noteq> (rabbit_x (rabbits corn_ripe ! 0), rabbit_y (rabbits corn_ripe ! 0))"
      "\<forall>i j. in_field i j \<longrightarrow>
           cell g' i j =
             (if i = rabbit_x r' \<and> j = rabbit_y r'
                 \<and> crop (cell corn_ripe i j) \<noteq> None \<and> stage (cell corn_ripe i j) = 3
              then new_Tile else cell corn_ripe i j)"
    by blast
  from s(2) have "(rabbit_x r', rabbit_y r') \<noteq> (0, 0)" by (simp add: corn_ripe_fields)
  with s(3) in_field_origin have "cell g' 0 0 = cell corn_ripe 0 0" by auto
  moreover have "update_rabbits 240 corn_ripe = Inr g'"
    using s(1) by (simp add: update_rabbits_def corn_ripe_fields)
  moreover have "cell corn_ripe 0 0 \<noteq> new_Tile"
    by (simp add: corn_ripe_fields corn_tile_def new_Tile_def)
  ultimately show ?thesis
    using corn_ripe_trace by (simp add: corn_ripe_fields corn_tile_fields)
qed

text \<open>
  Claim C5, amended. For every rabbit that is on a tile occupied at stage 3 when
  \<open>update_rabbits\<close> begins and is not due to move (\<open>now < next_move\<close>), that tile is
  \<open>Tile()\<close> when \<open>update_rabbits\<close> returns; the coins and all harvest counters are the same
  as before.
\<close>

theorem resting_rabbit_eats_cell:
  assumes "wf_grid g" and "rabbits_ok g" and "k < length (rabbits g)"
    and "now < next_move (rabbits g ! k)"
    and "crop (cell g (rabbit_x (rabbits g ! k)) (rabbit_y (rabbits g ! k))) \<noteq> None"
    and "stage (cell g (rabbit_x (rabbits g ! k)) (rabbit_y (rabbits g ! k))) = 3"
  shows "\<exists>g'. update_rabbits now g = Inr g'
     \<and> cell g' (rabbit_x (rabbits g ! k)) (rabbit_y (rabbits g ! k)) = new_Tile
     \<and> coins g' = coins g \<and> harvest_log g' = harvest_log g"
proof -
  let ?ks = "[0..<length (rabbits g)]"
  have len: "\<forall>m \<in> set ?ks. m < length (rabbits g)" by simp
  from rabbits_loop [OF assms(1,2) len, of now] obtain g' where
    g': "for_each ?ks (rabbit_body now) g = Inr g'" "hopped g g'" by blast
  have "cell g' (rabbit_x (rabbits g ! k)) (rabbit_y (rabbits g ! k)) = new_Tile"
    using g'(1) assms(1,2) len
  proof (rule rabbits_loop_eats)
    show "k \<in> set ?ks" using assms(3) by simp
  qed (use assms in simp_all)
  with g' show ?thesis by (simp add: update_rabbits_def hopped_def)
qed

text \<open>The rabbit resting on the ripe corn until time 300, at time 240.\<close>

theorem resting_rabbit_eats_cell_witness:
  "\<exists>g'. update_rabbits 240 corn_rested = Inr g'
     \<and> cell g' 0 0 = new_Tile
     \<and> coins g' = 20 \<and> harvest_log g' = harvest_log corn_ripe"
proof -
  have h: "wf_grid corn_rested" "rabbits_ok corn_rested" "0 < length (rabbits corn_rested)"
    "240 < next_move (rabbits corn_rested ! 0)"
    "crop (cell corn_rested (rabbit_x (rabbits corn_rested ! 0))
        (rabbit_y (rabbits corn_rested ! 0))) \<noteq> None"
    "stage (cell corn_rested (rabbit_x (rabbits corn_rested ! 0))
        (rabbit_y (rabbits corn_rested ! 0))) = 3"
    by (simp_all add: corn_rested_fields corn_tile_fields)
  from resting_rabbit_eats_cell [OF h] show ?thesis
    by (simp add: corn_rested_fields)
qed

section \<open>The coins are never negative\<close>

lemma CROPS_facts:
  assumes "c \<in> set CROPS"
  shows "grow_time c \<noteq> 0" "0 \<le> reward c" "0 \<le> seed_cost c"
  using assms
  by (auto simp: CROPS_def Corn_def Potato_def Tomato_def Bean_def Cabbage_def Broccoli_def
      mk_crop_def)

lemma CROP_BY_KEY_in_CROPS: "CROP_BY_KEY s = Some c \<Longrightarrow> c \<in> set CROPS"
  by (auto simp: CROP_BY_KEY_def CROPS_def split: if_splits)

lemma sound_crops_ok: "sound g \<Longrightarrow> crops_ok g"
  by (auto simp: sound_def crops_ok_iff dest: CROPS_facts(1))

lemma soundI:
  assumes "wf_grid g" "in_field (player_x g) (player_y g)" "rabbits_ok g" "0 \<le> coins g"
    and "selected g \<in> set CROPS"
    and "\<And>i j c. in_field i j \<Longrightarrow> crop (cell g i j) = Some c \<Longrightarrow> c \<in> set CROPS"
  shows "sound g"
  unfolding sound_def using assms by blast

lemma sound_cropD: "sound g \<Longrightarrow> in_field i j \<Longrightarrow> crop (cell g i j) = Some c \<Longrightarrow> c \<in> set CROPS"
  unfolding sound_def by blast

lemma sound_init: "sound (init_game rs cs)"
proof (rule soundI)
  fix i j c assume "in_field i j" "crop (cell (init_game rs cs) i j) = Some c"
  then show "c \<in> set CROPS" by (simp add: cell_init new_Tile_def)
qed (simp_all add: wf_grid_init rabbits_ok_def, simp_all add: init_game_def in_field_origin CROPS_def)

lemma sound_handle_action:
  assumes "sound g" "handle_action now g = Inr g'"
  shows "sound g'"
proof -
  from assms(1) have wf: "wf_grid g" "in_field (player_x g) (player_y g)"
    by (simp_all add: sound_def)
  let ?t = "cell g (player_x g) (player_y g)"
  show ?thesis
  proof (cases "crop ?t")
    case None
    show ?thesis
    proof (cases "seed_cost (selected g) \<le> coins g")
      case True
      with None assms(2) wf have "g' = put_cell (g\<lparr>coins := coins g - seed_cost (selected g)\<rparr>)
          (player_x g) (player_y g)
          (?t\<lparr>crop := Some (selected g), planted_at := now, stage := 0,
               fertilized := False, flash_to := now + 3 / 10\<rparr>)"
        by (simp add: handle_action_wf)
      with assms(1) True show ?thesis
        by (auto simp: sound_def wf_grid_put_cell cell_put_cell split: if_splits)
    next
      case False
      with None assms(2) wf have "g' = g" by (simp add: handle_action_wf)
      with assms(1) show ?thesis by simp
    qed
  next
    case (Some tc)
    with assms(1) wf have tc: "tc \<in> set CROPS" by (auto simp: sound_def)
    show ?thesis
    proof (cases "stage ?t = 3")
      case True
      with Some assms(2) wf obtain n where "g' =
          put_cell (g\<lparr>coins := coins g + reward tc,
                      harvest_log := (harvest_log g)(tc \<mapsto> n + 1)\<rparr>)
            (player_x g) (player_y g) new_Tile"
        by (auto simp: handle_action_wf split: option.splits)
      with assms(1) CROPS_facts(2) [OF tc] show ?thesis
        by (auto simp: sound_def wf_grid_put_cell cell_put_cell new_Tile_def split: if_splits)
    next
      case False
      with Some assms(2) wf have "g' = g" by (simp add: handle_action_wf)
      with assms(1) show ?thesis by simp
    qed
  qed
qed

lemma sound_handle_fertilizer:
  assumes "sound g" "handle_fertilizer now g = Inr g'"
  shows "sound g'"
proof -
  from assms(1) have wf: "wf_grid g" "in_field (player_x g) (player_y g)"
    by (simp_all add: sound_def)
  let ?t = "cell g (player_x g) (player_y g)"
  show ?thesis
  proof (cases "5 \<le> coins g \<and> crop ?t \<noteq> None \<and> \<not> fertilized ?t")
    case True
    with assms(2) wf have "g' = put_cell (g\<lparr>coins := coins g - 5\<rparr>) (player_x g) (player_y g)
        (?t\<lparr>planted_at := fl (planted_at ?t - fl (remaining_time now ?t / 2)),
             fertilized := True, sparkle_t := now\<rparr>)"
      by (simp add: handle_fertilizer_wf Let_def)
    with assms(1) True show ?thesis
      by (auto simp: sound_def wf_grid_put_cell cell_put_cell split: if_splits)
  next
    case False
    with assms(2) wf have "g' = g" by (auto simp: handle_fertilizer_wf Let_def)
    with assms(1) show ?thesis by simp
  qed
qed

lemma sound_handle_key:
  assumes "sound g" "handle_key now k g = Inr g'"
  shows "sound g'"
proof (cases k)
  case K_SPACE
  with assms show ?thesis by (simp add: handle_key_moves sound_handle_action)
next
  case K_f
  with assms show ?thesis by (simp add: handle_key_moves sound_handle_fertilizer)
next
  case (K_named s)
  with assms show ?thesis
    by (auto simp: handle_key_moves sound_def cell_def dest: CROP_BY_KEY_in_CROPS
        split: option.splits)
qed (use assms in \<open>auto simp: handle_key_moves sound_def in_field_def COLS_def ROWS_def\<close>)

lemma sound_handle_input:
  assumes "sound g" "handle_input now evs g = Inr g'"
  shows "sound g'"
  using assms unfolding handle_input_def
proof (induction evs arbitrary: g)
  case Nil
  then show ?case by simp
next
  case (Cons ev evs)
  from Cons.prems(2) obtain g1 where
    g1: "handle_event now ev g = Inr g1" "for_each evs (handle_event now) g1 = Inr g'"
    by (auto split: sum.splits)
  from g1(1) Cons.prems(1) have "sound g1"
    by (cases ev) (auto simp: handle_event_def dest: sound_handle_key)
  with g1(2) show ?case by (rule Cons.IH [rotated])
qed

lemma sound_update_growth:
  assumes "sound g" "update_growth now g = Inr g'"
  shows "sound g'"
proof -
  from assms(1) have wf: "wf_grid g" and ok: "crops_ok g"
    by (simp_all add: sound_def sound_crops_ok)
  from update_growth_cell [OF wf ok, of now] assms(2)
  have g': "wf_grid g'" "\<forall>i j. in_field i j \<longrightarrow> cell g' i j = grown now (cell g i j)"
    "coins g' = coins g" "player_x g' = player_x g" "player_y g' = player_y g"
    "selected g' = selected g" "rabbits_ok g \<longrightarrow> rabbits_ok g'"
    by auto
  show ?thesis
  proof (rule soundI)
    fix i j c assume "in_field i j" "crop (cell g' i j) = Some c"
    with g'(2) have "crop (cell g i j) = Some c" by simp
    with assms(1) \<open>in_field i j\<close> show "c \<in> set CROPS" by (rule sound_cropD)
  qed (use g' assms(1) in \<open>simp_all add: sound_def\<close>)
qed

lemma sound_update_rabbits:
  assumes "sound g" "update_rabbits now g = Inr g'"
  shows "sound g'"
proof -
  from assms(1) have wf: "wf_grid g" "rabbits_ok g" by (simp_all add: sound_def)
  have "\<forall>m \<in> set [0..<length (rabbits g)]. m < length (rabbits g)" by simp
  from rabbits_loop [OF wf this, of now] assms(2) have h: "hopped g g'"
    by (simp add: update_rabbits_def)
  have "c \<in> set CROPS" if "in_field i j" "crop (cell g' i j) = Some c" for i j c
  proof -
    from h that(1) have "cell g' i j = cell g i j \<or> cell g' i j = new_Tile"
      unfolding hopped_def by blast
    with that(2) have "crop (cell g i j) = Some c" by (auto simp: new_Tile_def)
    with assms(1) that(1) show ?thesis by (rule sound_cropD)
  qed
  then show ?thesis
  proof (intro soundI)
  qed (use h assms(1) in \<open>simp_all add: sound_def hopped_def\<close>)
qed

lemma sound_run_steps:
  assumes "sound g" "run_steps steps g = Inr g'"
  shows "sound g'"
  using assms unfolding run_steps_def
proof (induction steps arbitrary: g)
  case Nil
  then show ?case by simp
next
  case (Cons s steps)
  from Cons.prems(2) obtain g1 where
    g1: "do_step s g = Inr g1" "for_each steps do_step g1 = Inr g'"
    by (auto split: sum.splits)
  from g1(1) Cons.prems(1) have "sound g1"
    by (cases s)
       (auto simp: do_step_def dest: sound_handle_input sound_update_growth sound_update_rabbits)
  with g1(2) show ?case by (rule Cons.IH [rotated])
qed

text \<open>
  Claim C9. Whatever sequence of input handling (plant, harvest, fertilize, moves, seed
  keys), growth updates and rabbit updates is run from the state after \<open>__init__\<close>, for
  any generator and clock, the coins of the state reached are not negative.
\<close>

theorem coins_never_negative:
  assumes "run_steps steps (init_game rs cs) = Inr g"
  shows "0 \<le> coins g"
proof -
  have "sound g" using sound_init assms by (rule sound_run_steps)
  then show ?thesis by (simp add: sound_def)
qed

text \<open>Planting corn in the first frame: 25 coins, then 20.\<close>

theorem coins_never_negative_witness:
  "run_steps [Input 0 [KEYDOWN K_SPACE]] demo_start = Inr corn_planted
   \<and> 0 \<le> coins corn_planted"
proof -
  have r: "run_steps [Input 0 [KEYDOWN K_SPACE]] demo_start = Inr corn_planted"
    using corn_planting
    by (simp add: run_steps_def do_step_def handle_input_def handle_event_def handle_key_moves)
  from coins_never_negative [OF r [unfolded demo_start_def]] r show ?thesis by simp
qed

end
